theory Spec2Isabelle
  imports Complex_Main
begin

section \<open>JavaScript numbers\<close>

text \<open>
  A JavaScript number is an IEEE 754 double: a finite value, an infinity or NaN. \<open>Num r\<close>
  is the double with the value \<open>r\<close>; the two zeros are one value here, since no operation
  of the component tells them apart. \<open>fl\<close> rounds a real result to the nearest double,
  ties to the even significand: doubles around \<open>r\<close> are the multiples of \<open>quantum r\<close>
  (53 significant bits, \<open>2 powr - 1074\<close> below the normal range), and a result that rounds
  to \<open>2 ^ 1024\<close> or beyond is an infinity.
\<close>

datatype number = Num real | Infinity | NegInfinity | NaN

definition round_half_even :: "real \<Rightarrow> int" where
  "round_half_even r =
     (let f = \<lfloor>r\<rfloor>; d = r - of_int f in
      if d < 1 / 2 then f else if 1 / 2 < d then f + 1 else if even f then f else f + 1)"

definition quantum :: "real \<Rightarrow> real" where
  "quantum r = 2 powr of_int (max \<lfloor>log 2 \<bar>r\<bar>\<rfloor> (- 1022) - 52)"

definition fl :: "real \<Rightarrow> number" where
  "fl r =
     (if r = 0 then Num 0
      else
        (let v = quantum r * of_int (round_half_even (r / quantum r)) in
         if 2 ^ 1024 \<le> \<bar>v\<bar> then (if 0 < r then Infinity else NegInfinity) else Num v))"

text \<open>The operators \<open>+\<close>, \<open>-\<close>, \<open>*\<close>, \<open>>\<close> and \<open>!==\<close> on numbers.\<close>

fun js_neg :: "number \<Rightarrow> number" where
  "js_neg (Num a) = Num (- a)"
| "js_neg Infinity = NegInfinity"
| "js_neg NegInfinity = Infinity"
| "js_neg NaN = NaN"

fun js_add :: "number \<Rightarrow> number \<Rightarrow> number" where
  "js_add NaN b = NaN"
| "js_add a NaN = NaN"
| "js_add Infinity NegInfinity = NaN"
| "js_add NegInfinity Infinity = NaN"
| "js_add Infinity b = Infinity"
| "js_add a Infinity = Infinity"
| "js_add NegInfinity b = NegInfinity"
| "js_add a NegInfinity = NegInfinity"
| "js_add (Num a) (Num b) = fl (a + b)"

definition js_sub :: "number \<Rightarrow> number \<Rightarrow> number" where
  "js_sub a b = js_add a (js_neg b)"

fun js_mul :: "number \<Rightarrow> number \<Rightarrow> number" where
  "js_mul NaN b = NaN"
| "js_mul a NaN = NaN"
| "js_mul Infinity (Num b) = (if b = 0 then NaN else if 0 < b then Infinity else NegInfinity)"
| "js_mul NegInfinity (Num b) = (if b = 0 then NaN else if 0 < b then NegInfinity else Infinity)"
| "js_mul (Num a) Infinity = (if a = 0 then NaN else if 0 < a then Infinity else NegInfinity)"
| "js_mul (Num a) NegInfinity = (if a = 0 then NaN else if 0 < a then NegInfinity else Infinity)"
| "js_mul Infinity Infinity = Infinity"
| "js_mul Infinity NegInfinity = NegInfinity"
| "js_mul NegInfinity Infinity = NegInfinity"
| "js_mul NegInfinity NegInfinity = Infinity"
| "js_mul (Num a) (Num b) = fl (a * b)"

fun js_gt :: "number \<Rightarrow> number \<Rightarrow> bool" where
  "js_gt (Num a) (Num b) = (b < a)"
| "js_gt Infinity (Num b) = True"
| "js_gt Infinity NegInfinity = True"
| "js_gt (Num a) NegInfinity = True"
| "js_gt a b = False"

definition js_strict_neq :: "number \<Rightarrow> number \<Rightarrow> bool" where
  "js_strict_neq a b = (a = NaN \<or> b = NaN \<or> a \<noteq> b)"

fun is_finite :: "number \<Rightarrow> bool" where
  "is_finite (Num a) = True"
| "is_finite a = False"

text \<open>
  ECMAScript fixes the results of \<open>+\<close>, \<open>-\<close> and \<open>*\<close> as the correctly rounded ones, and
  leaves \<open>Math.sqrt\<close> and \<open>**\<close> to the engine as approximations. The engine's \<open>Math.sqrt\<close>
  and its \<open>b ** 2\<close> are therefore parameters of the component. \<open>binary64\<close> is the engine
  that rounds both correctly: the square root of IEEE 754, and the square as the rounded
  product.
\<close>

record engine =
  Math_sqrt :: "number \<Rightarrow> number"
  square :: "number \<Rightarrow> number"  \<comment> \<open>\<open>b ** 2\<close>\<close>

fun ieee_sqrt :: "number \<Rightarrow> number" where
  "ieee_sqrt (Num a) = (if a < 0 then NaN else fl (sqrt a))"
| "ieee_sqrt Infinity = Infinity"
| "ieee_sqrt NegInfinity = NaN"
| "ieee_sqrt NaN = NaN"

definition binary64 :: engine where
  "binary64 = \<lparr>Math_sqrt = ieee_sqrt, square = (\<lambda>b. js_mul b b)\<rparr>"

text \<open>
  Assigning a number to \<open>canvas.width\<close> or \<open>canvas.height\<close> converts it to an
  \<open>unsigned long\<close> (NaN and the infinities to 0, other values truncated towards zero and
  taken modulo \<open>2 ^ 32\<close>); a result above \<open>2 ^ 31 - 1\<close> is replaced by the attribute's
  default.
\<close>

definition to_unsigned_long :: "nat \<Rightarrow> number \<Rightarrow> nat" where
  "to_unsigned_long dflt v =
     (let n = (case v of
                 Num r \<Rightarrow> (if 0 \<le> r then \<lfloor>r\<rfloor> else - \<lfloor>- r\<rfloor>) mod 2 ^ 32
               | _ \<Rightarrow> 0)
      in if n \<le> 2147483647 then nat n else dflt)"

section \<open>Data model of \<open>src/utils/Painter.tsx\<close>\<close>

text \<open>
  The component \<open>Painter\<close> (first variant of the file, the one with \<open>threshold\<close>,
  \<open>lineWidth\<close> and the \<open>data\<close> state) is embedded as explicit state passing.
\<close>

record PainterInterface =
  recordPoints :: "bool option"  \<comment> \<open>\<open>recordPoints?: boolean\<close>; \<open>None\<close> is an unset prop\<close>
  threshold :: number
  lineWidth :: number

record Coordinates =
  x :: number
  y :: number

text \<open>The fields of the DOM objects that the component reads or writes.\<close>

datatype Touch = Touch (pageX: number) (pageY: number) (clientX: number) (clientY: number)

record event =
  type :: string
  touches :: "Touch list"
  clientX :: number
  clientY :: number

record canvas =
  offsetLeft :: number
  offsetTop :: number
  rect_width :: number   \<comment> \<open>\<open>getBoundingClientRect().width\<close>\<close>
  rect_height :: number  \<comment> \<open>\<open>getBoundingClientRect().height\<close>\<close>
  width :: nat
  height :: nat
  context2d :: bool      \<comment> \<open>whether \<open>getContext("2d")\<close> returns a context\<close>

text \<open>The three \<open>useState\<close> cells of the component.\<close>

record state =
  drawing :: bool
  position :: "Coordinates option"
  data :: "Coordinates list"

datatype error = TypeError

text \<open>
  What the component does to the outside: the calls of \<open>drawLine\<close>, the operations on the
  2D context, the assignments to the size of the backing store (each of which clears the
  canvas) and the lines written to the console, in the order in which they happen.
\<close>

datatype ctx_op =
    StrokeStyle string
  | LineJoin string
  | LineWidth number
  | BeginPath
  | MoveTo number number
  | LineTo number number
  | ClosePath
  | Stroke
  | Scale number number

datatype action =
    Call_drawLine Coordinates Coordinates
  | Ctx ctx_op
  | CanvasWidth number
  | CanvasHeight number
  | ConsoleLog "Coordinates list"

section \<open>The functions of the component\<close>

definition drawLine ::
  "canvas option \<Rightarrow> PainterInterface \<Rightarrow> Coordinates \<Rightarrow> Coordinates \<Rightarrow> action list" where
  "drawLine canvasRef props p1 p2 =
     Call_drawLine p1 p2 #
     (case canvasRef of
        None \<Rightarrow> []
      | Some c \<Rightarrow>
          if context2d c then
            map Ctx [StrokeStyle ''#000000'', LineJoin ''round'', LineWidth (lineWidth props),
                     BeginPath, MoveTo (x p1) (y p1), LineTo (x p2) (y p2), ClosePath, Stroke]
          else [])"

function redraw_loop ::
  "canvas option \<Rightarrow> PainterInterface \<Rightarrow> Coordinates list \<Rightarrow> nat \<Rightarrow> action list" where
  "redraw_loop canvasRef props ds i =
     (if int i < int (length ds) - 1
      then drawLine canvasRef props (ds ! i) (ds ! (i + 1)) @ redraw_loop canvasRef props ds (i + 1)
      else [])"
  by pat_completeness auto
termination
  by (relation "measure (\<lambda>(c, p, ds, i). length ds - i)") auto

declare redraw_loop.simps [simp del]

definition redraw :: "canvas option \<Rightarrow> PainterInterface \<Rightarrow> Coordinates list \<Rightarrow> action list" where
  "redraw canvasRef props ds = redraw_loop canvasRef props ds 0"

definition getCoordinates :: "canvas option \<Rightarrow> event \<Rightarrow> error + Coordinates option" where
  "getCoordinates canvasRef ev =
     (case canvasRef of
        None \<Rightarrow> Inr None
      | Some c \<Rightarrow>
          if type ev = ''touchstart'' \<or> type ev = ''touchmove'' then
            (case touches ev of
               [] \<Rightarrow> Inl TypeError
             | t # _ \<Rightarrow>
                 Inr (Some \<lparr>x = js_sub (pageX t) (offsetLeft c), y = js_sub (pageY t) (offsetTop c)\<rparr>))
          else
            Inr (Some \<lparr>x = js_sub (event.clientX ev) (offsetLeft c),
                       y = js_sub (event.clientY ev) (offsetTop c)\<rparr>))"

definition getDistance :: "engine \<Rightarrow> Coordinates \<Rightarrow> Coordinates \<Rightarrow> number" where
  "getDistance E p1 p2 =
     Math_sqrt E (js_add (square E (js_sub (x p2) (x p1))) (square E (js_sub (y p2) (y p1))))"

text \<open>
  \<open>resizeCanvas\<close> returns \<open>void | null\<close> and its caller drops the value, so the model
  returns the canvas as the function leaves it and the actions it performed.
  \<open>dpr\<close> is \<open>window.devicePixelRatio\<close>, which defaults to 1 when undefined. \<open>redraw\<close> and
  \<open>drawLine\<close> reach the same canvas through \<open>canvasRef.current\<close>. The defaults of the
  \<open>width\<close> and \<open>height\<close> attributes of a canvas are 300 and 150.
\<close>

definition resizeCanvas ::
  "number option \<Rightarrow> PainterInterface \<Rightarrow> Coordinates list \<Rightarrow> canvas \<Rightarrow> canvas \<times> action list" where
  "resizeCanvas dpr props ds c =
     (let w = rect_width c; h = rect_height c in
      if js_strict_neq (Num (real (width c))) w \<or> js_strict_neq (Num (real (height c))) h then
        (let ratio = (case dpr of None \<Rightarrow> Num 1 | Some r \<Rightarrow> r) in
         if context2d c then
           (let c' = c\<lparr>width := to_unsigned_long 300 (js_mul w ratio),
                       height := to_unsigned_long 150 (js_mul h ratio)\<rparr> in
            (c', [CanvasWidth (js_mul w ratio), CanvasHeight (js_mul h ratio),
                  Ctx (Scale ratio ratio)]
                 @ redraw (Some c') props ds))
         else (c, []))
      else (c, []))"

definition onDown :: "canvas option \<Rightarrow> event \<Rightarrow> state \<Rightarrow> error + state" where
  "onDown canvasRef ev s =
     (case getCoordinates canvasRef ev of
        Inl e \<Rightarrow> Inl e
      | Inr None \<Rightarrow> Inr s
      | Inr (Some coordinates) \<Rightarrow> Inr (s\<lparr>position := Some coordinates, drawing := True\<rparr>))"

definition onUp :: "state \<Rightarrow> state" where
  "onUp s = s\<lparr>drawing := False, position := None\<rparr>"

text \<open>
  \<open>onMove\<close> is a \<open>useCallback\<close> closure: it reads \<open>drawing\<close>, \<open>position\<close> and \<open>data\<close> as they
  were at the render that built it (\<open>closure\<close> below), and its setters replace the
  pending state \<open>s\<close>; \<open>setData\<close> is given \<open>data\<close> of the closure with the new point
  appended. \<open>onMove\<close> itself is the handler run on the state of the last render with no
  update pending.
\<close>

definition onMove_closure ::
  "engine \<Rightarrow> canvas option \<Rightarrow> PainterInterface \<Rightarrow> state \<Rightarrow> event \<Rightarrow> state
     \<Rightarrow> error + state \<times> action list" where
  "onMove_closure E canvasRef props closure ev s =
     (if drawing closure then
        (case getCoordinates canvasRef ev of
           Inl e \<Rightarrow> Inl e
         | Inr newPosition \<Rightarrow>
             (case (position closure, newPosition) of
                (Some p, Some q) \<Rightarrow>
                  if js_gt (getDistance E p q) (threshold props) then
                    Inr (s\<lparr>position := Some q, data := data closure @ [q]\<rparr>,
                         drawLine canvasRef props p q)
                  else Inr (s, [])
              | _ \<Rightarrow> Inr (s, [])))
      else Inr (s, []))"

definition onMove ::
  "engine \<Rightarrow> canvas option \<Rightarrow> PainterInterface \<Rightarrow> event \<Rightarrow> state
     \<Rightarrow> error + state \<times> action list" where
  "onMove E canvasRef props ev s = onMove_closure E canvasRef props s ev s"

text \<open>Move events handled one after the other by the same closure, before a render.\<close>

fun onMoves ::
  "engine \<Rightarrow> canvas option \<Rightarrow> PainterInterface \<Rightarrow> state \<Rightarrow> event list \<Rightarrow> state
     \<Rightarrow> error + state \<times> action list" where
  "onMoves E canvasRef props closure [] s = Inr (s, [])"
| "onMoves E canvasRef props closure (ev # evs) s =
     (case onMove_closure E canvasRef props closure ev s of
        Inl e \<Rightarrow> Inl e
      | Inr (s', acts) \<Rightarrow>
          (case onMoves E canvasRef props closure evs s' of
             Inl e \<Rightarrow> Inl e
           | Inr (s'', acts') \<Rightarrow> Inr (s'', acts @ acts')))"

text \<open>
  The effect \<open>useEffect(() => { if (props.recordPoints && !drawing && data != []) console.log(data) }, [drawing])\<close>.
  In JavaScript \<open>data != []\<close> compares the array with a fresh array object and is always
  true, so the third conjunct is \<open>True\<close> here and an empty path is logged too.
\<close>

definition log_effect :: "PainterInterface \<Rightarrow> state \<Rightarrow> action list" where
  "log_effect props s =
     (if recordPoints props = Some True \<and> \<not> drawing s \<and> True then [ConsoleLog (data s)] else [])"

section \<open>The mounted component as a transition system\<close>

text \<open>
  The state of the mounted component is its hook state as of the last render and
  \<open>canvasRef.current\<close>. One input is what happens from one render to the next: the events
  handled by the handlers of the last render, then the render and the effects it
  triggers. Pointer-down and pointer-up are rendered at once. Move events are not: several
  of them can be handled before the component renders again, and then all of them run
  the \<open>onMove\<close> closure of the last render. \<open>Moves evs\<close> is such a group; \<open>Move ev\<close> is a move
  event that is rendered before the next event arrives. The handlers of pointer-down and
  pointer-up read no state, so it makes no difference to them whether the moves before
  them have been rendered. The logging effect runs when
  \<open>drawing\<close> has changed. A render rebuilds \<open>onMove\<close> when \<open>drawing\<close> or \<open>position\<close> has
  changed, and \<open>data\<close> changes only together with \<open>position\<close> (to a fresh object), so after
  every render the closure holds the state of that render. \<open>Resize w h\<close> is a change of
  the viewport to \<open>w\<close> by \<open>h\<close>: the canvas is styled \<open>100vw\<close> by \<open>100vh\<close>, so this is its new
  bounding box, and the effect on \<open>[size]\<close> runs \<open>resizeCanvas(canvasRef.current!)\<close>, which
  raises a TypeError on a null reference.
\<close>

record world =
  component :: state
  ref_current :: "canvas option"

text \<open>
  Modelled from the spec: the window-size observer \<open>useWindowSize\<close> (module
  \<open>./useWindowResize\<close>) reports the current width and height of the viewport and is used
  only to trigger the resize of the canvas. Its report is the input \<open>Resize\<close>.
\<close>

datatype input = Down event | Move event | Moves "event list" | Up | Resize number number

definition after_render :: "PainterInterface \<Rightarrow> state \<Rightarrow> state \<Rightarrow> action list" where
  "after_render props old new = (if drawing new \<noteq> drawing old then log_effect props new else [])"

fun step ::
  "engine \<Rightarrow> PainterInterface \<Rightarrow> number option \<Rightarrow> input \<Rightarrow> world
     \<Rightarrow> error + world \<times> action list" where
  "step E props dpr (Down ev) w =
     (case onDown (ref_current w) ev (component w) of
        Inl e \<Rightarrow> Inl e
      | Inr s' \<Rightarrow> Inr (w\<lparr>component := s'\<rparr>, after_render props (component w) s'))"
| "step E props dpr (Move ev) w =
     (case onMove E (ref_current w) props ev (component w) of
        Inl e \<Rightarrow> Inl e
      | Inr (s', acts) \<Rightarrow> Inr (w\<lparr>component := s'\<rparr>, acts @ after_render props (component w) s'))"
| "step E props dpr (Moves evs) w =
     (case onMoves E (ref_current w) props (component w) evs (component w) of
        Inl e \<Rightarrow> Inl e
      | Inr (s', acts) \<Rightarrow> Inr (w\<lparr>component := s'\<rparr>, acts @ after_render props (component w) s'))"
| "step E props dpr Up w =
     Inr (w\<lparr>component := onUp (component w)\<rparr>,
          after_render props (component w) (onUp (component w)))"
| "step E props dpr (Resize vw vh) w =
     (case ref_current w of
        None \<Rightarrow> Inl TypeError
      | Some c \<Rightarrow>
          (let (c', acts) = resizeCanvas dpr props (data (component w))
                              (c\<lparr>rect_width := vw, rect_height := vh\<rparr>)
           in Inr (w\<lparr>ref_current := Some c'\<rparr>, acts)))"

text \<open>
  A run handles the inputs in order and stops at the first one that raises. It starts
  from the state of the first render; the effects of that render (one run of the logging
  effect and of the resize effect at mount) come before the first input.
\<close>

fun run ::
  "engine \<Rightarrow> PainterInterface \<Rightarrow> number option \<Rightarrow> input list \<Rightarrow> world
     \<Rightarrow> error + world \<times> action list" where
  "run E props dpr [] w = Inr (w, [])"
| "run E props dpr (i # is) w =
     (case step E props dpr i w of
        Inl e \<Rightarrow> Inl e
      | Inr (w', acts) \<Rightarrow>
          (case run E props dpr is w' of
             Inl e \<Rightarrow> Inl e
           | Inr (w'', acts') \<Rightarrow> Inr (w'', acts @ acts')))"

definition initial :: "canvas option \<Rightarrow> world" where
  "initial canvasRef =
     \<lparr>component = \<lparr>drawing = False, position = None, data = []\<rparr>, ref_current = canvasRef\<rparr>"

fun is_pointer :: "input \<Rightarrow> bool" where
  "is_pointer (Resize vw vh) = False"
| "is_pointer i = True"

definition finite_point :: "Coordinates \<Rightarrow> bool" where
  "finite_point p = (is_finite (x p) \<and> is_finite (y p))"

definition maps_finite :: "canvas option \<Rightarrow> event \<Rightarrow> bool" where
  "maps_finite canvasRef ev =
     (case getCoordinates canvasRef ev of
        Inr (Some q) \<Rightarrow> finite_point q
      | _ \<Rightarrow> True)"

text \<open>
  A pointer-down, pointer-move or pointer-up event that is rendered before the next event
  is handled and whose point, if the mapping gives one, has finite coordinates.
\<close>

fun plain :: "canvas option \<Rightarrow> input \<Rightarrow> bool" where
  "plain canvasRef (Down ev) = maps_finite canvasRef ev"
| "plain canvasRef (Move ev) = maps_finite canvasRef ev"
| "plain canvasRef Up = True"
| "plain canvasRef i = False"

text \<open>The calls of the stroke renderer in a trace, as pairs of start and end point.\<close>

fun render_calls :: "action list \<Rightarrow> (Coordinates \<times> Coordinates) list" where
  "render_calls [] = []"
| "render_calls (Call_drawLine p1 p2 # as) = (p1, p2) # render_calls as"
| "render_calls (a # as) = render_calls as"

text \<open>
  The line segments that a trace strokes on the canvas. The first argument is the current
  point and the lines of the current path of the 2D context. \<open>beginPath\<close> empties the
  path; \<open>moveTo\<close> and \<open>lineTo\<close> do nothing when a coordinate is not finite, and otherwise
  \<open>moveTo\<close> starts a subpath and \<open>lineTo\<close> adds the line from the current point (or starts
  a subpath when there is none); \<open>stroke\<close> strokes the lines of the path; assigning the
  width or the height of the canvas resets the context and with it the path. \<open>closePath\<close>
  joins the end of the subpath to its start, which for a single line retraces that line
  and adds no other segment.
\<close>

fun strokes_from ::
  "Coordinates option \<times> (Coordinates \<times> Coordinates) list \<Rightarrow> action list
     \<Rightarrow> (Coordinates \<times> Coordinates) list" where
  "strokes_from (cur, ls) [] = []"
| "strokes_from (cur, ls) (Ctx BeginPath # as) = strokes_from (None, []) as"
| "strokes_from (cur, ls) (Ctx (MoveTo a b) # as) =
     (if is_finite a \<and> is_finite b then strokes_from (Some \<lparr>x = a, y = b\<rparr>, ls) as
      else strokes_from (cur, ls) as)"
| "strokes_from (cur, ls) (Ctx (LineTo a b) # as) =
     (if is_finite a \<and> is_finite b then
        (case cur of
           None \<Rightarrow> strokes_from (Some \<lparr>x = a, y = b\<rparr>, ls) as
         | Some p \<Rightarrow> strokes_from (Some \<lparr>x = a, y = b\<rparr>, ls @ [(p, \<lparr>x = a, y = b\<rparr>)]) as)
      else strokes_from (cur, ls) as)"
| "strokes_from (cur, ls) (Ctx Stroke # as) = ls @ strokes_from (cur, ls) as"
| "strokes_from (cur, ls) (CanvasWidth v # as) = strokes_from (None, []) as"
| "strokes_from (cur, ls) (CanvasHeight v # as) = strokes_from (None, []) as"
| "strokes_from (cur, ls) (a # as) = strokes_from (cur, ls) as"

definition stroked :: "action list \<Rightarrow> (Coordinates \<times> Coordinates) list" where
  "stroked tr = strokes_from (None, []) tr"

fun console_logs :: "action list \<Rightarrow> Coordinates list list" where
  "console_logs [] = []"
| "console_logs (ConsoleLog ds # as) = ds # console_logs as"
| "console_logs (a # as) = console_logs as"



section \<open>Concrete configurations\<close>

text \<open>
  The home page mounts \<open><Painter lineWidth={3} threshold={4} recordPoints={true} />\<close>.
  The canvas below is a mounted one with a 2D context, at the origin of the document, with
  the default backing store of 300 by 150 pixels; \<open>no_context\<close> is the same canvas without
  a 2D context.
\<close>

definition IndexPage_props :: PainterInterface where
  "IndexPage_props = \<lparr>recordPoints = Some True, threshold = Num 4, lineWidth = Num 3\<rparr>"

definition mounted :: canvas where
  "mounted = \<lparr>offsetLeft = Num 0, offsetTop = Num 0, rect_width = Num 300, rect_height = Num 150,
              width = 300, height = 150, context2d = True\<rparr>"

definition no_context :: canvas where
  "no_context = mounted\<lparr>context2d := False\<rparr>"

definition mouse :: "string \<Rightarrow> real \<Rightarrow> real \<Rightarrow> event" where
  "mouse t a b = \<lparr>type = t, touches = [], clientX = Num a, clientY = Num b\<rparr>"

definition pt :: "real \<Rightarrow> real \<Rightarrow> Coordinates" where
  "pt a b = \<lparr>x = Num a, y = Num b\<rparr>"

text \<open>
  States and inputs of one stroke under the threshold 4: down at (0, 0), a move to (0, 3)
  that stays below the threshold, qualifying moves to (3, 4) and (6, 8), each at the
  distance 5 from the point before, and up. \<open>hasty_stroke\<close> is the same stroke with the
  two qualifying moves handled before the component renders again. The touch below is at
  (10, 20) of the page and at (3, 4) of the viewport.
\<close>

definition stroke_start :: state where
  "stroke_start = \<lparr>drawing = True, position = Some (pt 0 0), data = []\<rparr>"

definition touch_event :: event where
  "touch_event = \<lparr>type = ''touchstart'', touches = [Touch (Num 10) (Num 20) (Num 3) (Num 4)],
                  clientX = Num 0, clientY = Num 0\<rparr>"

definition unset_props :: PainterInterface where
  "unset_props = IndexPage_props\<lparr>recordPoints := None\<rparr>"

definition three_points :: world where
  "three_points = \<lparr>component = \<lparr>drawing = False, position = None, data = [pt 3 4, pt 6 8, pt 6 20]\<rparr>,
                    ref_current = Some mounted\<rparr>"

definition sample_stroke :: "input list" where
  "sample_stroke = [Down (mouse ''mousedown'' 0 0), Move (mouse ''mousemove'' 0 3),
                    Move (mouse ''mousemove'' 3 4), Move (mouse ''mousemove'' 6 8), Up]"

definition hasty_stroke :: "input list" where
  "hasty_stroke = [Down (mouse ''mousedown'' 0 0),
                   Moves [mouse ''mousemove'' 3 4, mouse ''mousemove'' 6 8], Up]"

definition after_strokes :: world where
  "after_strokes = \<lparr>component = \<lparr>drawing = False, position = None, data = [pt 3 4, pt 6 8]\<rparr>,
                     ref_current = Some mounted\<rparr>"

definition resized :: canvas where
  "resized = mounted\<lparr>rect_width := Num 800, rect_height := Num 600, width := 800, height := 600\<rparr>"

definition mid_stroke :: world where
  "mid_stroke = \<lparr>component = \<lparr>drawing = True, position = Some (pt 6 8), data = [pt 3 4, pt 6 8]\<rparr>,
                  ref_current = Some mounted\<rparr>"

text \<open>
  A threshold of \<open>2 ^ 27\<close> and a move from (0, 0) to (\<open>2 ^ 27\<close>, 1): the sum of the squares,
  \<open>2 ^ 54 + 1\<close>, is not a double and rounds to \<open>2 ^ 54\<close>.
\<close>

definition wide_props :: PainterInterface where
  "wide_props = \<lparr>recordPoints = Some True, threshold = Num (2 ^ 27), lineWidth = Num 3\<rparr>"

definition wide_move :: event where
  "wide_move = mouse ''mousemove'' (2 ^ 27) 1"

text \<open>
  A canvas at the offset \<open>- 2 ^ 1023\<close> and a move at the client position \<open>2 ^ 1023\<close>: the
  difference, \<open>2 ^ 1024\<close>, is beyond the doubles, and the mapped x coordinate is
  \<open>Infinity\<close>.
\<close>

definition far_left :: canvas where
  "far_left = mounted\<lparr>offsetLeft := Num (- (2 ^ 1023))\<rparr>"

definition far_move :: event where
  "far_move = mouse ''mousemove'' (2 ^ 1023) 0"

definition far_point :: Coordinates where
  "far_point = \<lparr>x = Infinity, y = Num 0\<rparr>"

definition far_stroke :: "input list" where
  "far_stroke = [Down (mouse ''mousedown'' 0 0), Move far_move, Up]"

section \<open>Facts about the numbers\<close>

lemma quantum_eq:
  assumes "2 ^ k \<le> \<bar>r\<bar>" and "\<bar>r\<bar> < 2 ^ (k + 1)"
  shows "quantum r = 2 ^ k / 2 ^ 52"
proof -
  have pos: "0 < \<bar>r\<bar>" using assms(1) by (smt (verit) zero_less_power)
  have "(2::real) powr of_int (int k) \<le> \<bar>r\<bar> \<and> \<bar>r\<bar> < 2 powr of_int (int k + 1)"
    using assms by (simp add: powr_realpow powr_add)
  then have "\<lfloor>log 2 \<bar>r\<bar>\<rfloor> = int k"
    using pos by (subst floor_log_eq_powr_iff) simp_all
  then have "quantum r = 2 powr (real k - 52)"
    by (simp add: quantum_def)
  also have "\<dots> = 2 ^ k / 2 ^ 52"
    by (simp add: powr_diff powr_realpow flip: powr_numeral)
  finally show ?thesis .
qed

lemma round_half_even_of_int: "round_half_even (of_int z) = z"
  by (simp add: round_half_even_def)

text \<open>A real with at most 53 significant bits inside the range is a double.\<close>

lemma fl_exact:
  assumes "2 ^ k \<le> \<bar>r\<bar>" and "\<bar>r\<bar> < 2 ^ (k + 1)" and "k < 1024"
    and "r * 2 ^ 52 / 2 ^ k \<in> \<int>"
  shows "fl r = Num r"
proof -
  have r0: "r \<noteq> 0" using assms(1) by (smt (verit) zero_less_power abs_zero)
  have q: "quantum r = 2 ^ k / 2 ^ 52" using quantum_eq[OF assms(1,2)] .
  from assms(4) obtain z :: int where z: "r * 2 ^ 52 / 2 ^ k = of_int z"
    by (auto elim: Ints_cases)
  have d: "r / quantum r = of_int z" using z by (simp add: q)
  have qpos: "quantum r \<noteq> 0" by (simp add: q)
  have "quantum r * of_int (round_half_even (r / quantum r)) = quantum r * (r / quantum r)"
    by (simp only: d round_half_even_of_int)
  also have "\<dots> = r" using qpos by simp
  finally have v: "quantum r * of_int (round_half_even (r / quantum r)) = r" .
  have "\<bar>r\<bar> < 2 ^ 1024"
  proof -
    have "(2::real) ^ (k + 1) \<le> 2 ^ 1024"
      using assms(3) by (intro power_increasing) simp_all
    with assms(2) show ?thesis by linarith
  qed
  with r0 v show ?thesis by (simp add: fl_def Let_def)
qed

lemma fl_Ints:
  assumes "r \<in> \<int>" and "\<bar>r\<bar> \<le> 2 ^ 53"
  shows "fl r = Num r"
proof (cases "r = 0")
  case True
  then show ?thesis by (simp add: fl_def)
next
  case False
  with assms(1) have one: "1 \<le> \<bar>r\<bar>"
    by (auto elim!: Ints_cases)
  define k where "k = nat \<lfloor>log 2 \<bar>r\<bar>\<rfloor>"
  have l0: "0 \<le> \<lfloor>log 2 \<bar>r\<bar>\<rfloor>" using one by simp
  have "2 powr of_int \<lfloor>log 2 \<bar>r\<bar>\<rfloor> \<le> \<bar>r\<bar> \<and> \<bar>r\<bar> < 2 powr of_int (\<lfloor>log 2 \<bar>r\<bar>\<rfloor> + 1)"
    using one floor_log_eq_powr_iff[of "\<bar>r\<bar>" 2 "\<lfloor>log 2 \<bar>r\<bar>\<rfloor>"] by simp
  moreover have "of_int \<lfloor>log 2 \<bar>r\<bar>\<rfloor> = real k" using l0 by (simp add: k_def)
  ultimately have lo: "2 ^ k \<le> \<bar>r\<bar>" and hi: "\<bar>r\<bar> < 2 ^ (k + 1)"
    by (simp_all add: powr_realpow powr_add)
  from lo assms(2) have "(2::real) ^ k \<le> 2 ^ 53" by linarith
  then have k53: "k \<le> 53" by (rule power_le_imp_le_exp[rotated]) simp
  have "r * 2 ^ 52 / 2 ^ k \<in> \<int>"
  proof (cases "k \<le> 52")
    case True
    then have "(2::real) ^ 52 / 2 ^ k = 2 ^ (52 - k)"
      by (simp add: power_diff)
    then have "r * 2 ^ 52 / 2 ^ k = r * 2 ^ (52 - k)"
      by (simp only: times_divide_eq_right[symmetric])
    with assms(1) show ?thesis by (simp only: Ints_mult Ints_power Ints_numeral)
  next
    case False
    with k53 have k: "k = 53" by simp
    with lo assms(2) have "\<bar>r\<bar> = 2 ^ 53" by simp
    then have "r = 2 ^ 53 \<or> r = - (2 ^ 53)" by linarith
    then show ?thesis using k by auto
  qed
  from fl_exact[OF lo hi _ this] k53 show ?thesis by simp
qed

lemma fl_rounds_2_54_plus_1: "fl (2 ^ 54 + 1) = Num (2 ^ 54)"
  by (simp add: fl_def Let_def quantum_eq[where k = 54] round_half_even_def)

lemma fl_2_54: "fl (2 ^ 54) = Num (2 ^ 54)"
  by (rule fl_exact[where k = 54]) simp_all

lemma fl_2_1023: "fl (2 ^ 1023) = Num (2 ^ 1023)"
  by (rule fl_exact[where k = 1023]) simp_all

lemma fl_2_1024: "fl (2 ^ 1024) = Infinity"
  by (simp add: fl_def Let_def quantum_eq[where k = 1024] round_half_even_def)

lemma sqrt_9: "sqrt 9 = 3"
  by (rule real_sqrt_unique) simp_all

lemma sqrt_25: "sqrt 25 = 5"
  by (rule real_sqrt_unique) simp_all

lemma sqrt_100: "sqrt 100 = 10"
  by (rule real_sqrt_unique) simp_all

lemma sqrt_2_54: "sqrt (2 ^ 54) = 2 ^ 27"
  by (rule real_sqrt_unique) simp_all

text \<open>Evaluation of the arithmetic on integers of at most 53 bits.\<close>

lemmas js_eval = js_sub_def fl_Ints binary64_def sqrt_9 sqrt_25 sqrt_100

text \<open>
  With the correctly rounding engine, a distance whose differences, squares, sum of
  squares and square root are all doubles is computed without any rounding: it is the
  Euclidean distance.
\<close>

lemma getDistance_exact:
  assumes "fl (c - a) = Num (c - a)" and "fl (d - b) = Num (d - b)"
    and "fl ((c - a) * (c - a)) = Num ((c - a) * (c - a))"
    and "fl ((d - b) * (d - b)) = Num ((d - b) * (d - b))"
    and "fl ((c - a) * (c - a) + (d - b) * (d - b)) = Num ((c - a) * (c - a) + (d - b) * (d - b))"
    and "fl (sqrt ((c - a)\<^sup>2 + (d - b)\<^sup>2)) = Num (sqrt ((c - a)\<^sup>2 + (d - b)\<^sup>2))"
  shows "getDistance binary64 \<lparr>x = Num a, y = Num b\<rparr> \<lparr>x = Num c, y = Num d\<rparr>
           = Num (sqrt ((c - a)\<^sup>2 + (d - b)\<^sup>2))"
proof -
  have nn: "\<not> (c - a) * (c - a) + (d - b) * (d - b) < 0"
    by (simp add: not_less)
  show ?thesis
    using assms(6) nn
    by (simp add: getDistance_def binary64_def js_sub_def assms(1-5) power2_eq_square)
qed

section \<open>Facts about the traces\<close>

lemma render_calls_append: "render_calls (as @ bs) = render_calls as @ render_calls bs"
  by (induction as rule: render_calls.induct) simp_all

lemma render_calls_drawLine: "render_calls (drawLine c props p q) = [(p, q)]"
  by (simp add: drawLine_def split: option.splits)

lemma render_calls_redraw_loop:
  "render_calls (redraw_loop c props ds i) = drop i (zip ds (tl ds))"
proof (induction c props ds i rule: redraw_loop.induct)
  case (1 c props ds i)
  show ?case
  proof (cases "int i < int (length ds) - 1")
    case True
    then have lt: "i < length (zip ds (tl ds))" by simp
    have nth: "zip ds (tl ds) ! i = (ds ! i, ds ! (i + 1))"
      using True by (simp add: nth_tl)
    have "render_calls (redraw_loop c props ds i)
            = (ds ! i, ds ! (i + 1)) # drop (i + 1) (zip ds (tl ds))"
      using True "1.IH" by (subst redraw_loop.simps) (simp add: render_calls_append render_calls_drawLine)
    also have "\<dots> = drop i (zip ds (tl ds))"
      using lt nth by (metis Cons_nth_drop_Suc Suc_eq_plus1)
    finally show ?thesis .
  next
    case False
    then have "length (zip ds (tl ds)) \<le> i" by simp
    with False show ?thesis by (subst redraw_loop.simps) simp
  qed
qed

lemma render_calls_redraw: "render_calls (redraw c props ds) = zip ds (tl ds)"
  by (simp add: redraw_def render_calls_redraw_loop)

lemma render_calls_log_effect: "render_calls (log_effect props s) = []"
  by (simp add: log_effect_def)

lemma render_calls_after_render: "render_calls (after_render props s s') = []"
  by (simp add: after_render_def render_calls_log_effect)

lemma console_logs_append: "console_logs (as @ bs) = console_logs as @ console_logs bs"
  by (induction as rule: console_logs.induct) simp_all

lemma console_logs_drawLine: "console_logs (drawLine c props p q) = []"
  by (simp add: drawLine_def split: option.splits)

lemma console_logs_redraw_loop: "console_logs (redraw_loop c props ds i) = []"
proof (induction c props ds i rule: redraw_loop.induct)
  case (1 c props ds i)
  then show ?case
    by (subst redraw_loop.simps) (simp add: console_logs_append console_logs_drawLine)
qed

lemma console_logs_after_render:
  "recordPoints props \<noteq> Some True \<Longrightarrow> console_logs (after_render props s s') = []"
  by (simp add: after_render_def log_effect_def)


lemma strokes_drawLine:
  "context2d c \<Longrightarrow> count_list (drawLine (Some c) props p q) (Ctx Stroke) = 1"
  by (simp add: drawLine_def)

lemma strokes_redraw_loop:
  "context2d c \<Longrightarrow>
     count_list (redraw_loop (Some c) props ds i) (Ctx Stroke) = length ds - 1 - i"
proof (induction "Some c" props ds i rule: redraw_loop.induct)
  case (1 props ds i)
  show ?case
  proof (cases "int i < int (length ds) - 1")
    case True
    with 1 have ih: "count_list (redraw_loop (Some c) props ds (i + 1)) (Ctx Stroke)
                      = length ds - 1 - (i + 1)"
      by simp
    have "count_list (redraw_loop (Some c) props ds i) (Ctx Stroke)
            = 1 + (length ds - 1 - (i + 1))"
      using True 1(2) ih by (subst redraw_loop.simps) (simp add: strokes_drawLine)
    also have "\<dots> = length ds - 1 - i"
      using True by linarith
    finally show ?thesis .
  next
    case False
    then show ?thesis by (subst redraw_loop.simps) simp
  qed
qed

text \<open>
  On a canvas with a 2D context, a call of the stroke renderer with finite end points
  strokes exactly its segment, whatever the path was before, and leaves that segment as
  the path; without a context, or with an end point that is not finite, it strokes
  nothing.
\<close>

lemma Coordinates_eta: "\<lparr>x = x p, y = y p\<rparr> = p"
  by (cases p) simp

lemma strokes_from_drawLine:
  assumes "context2d c" and "finite_point p" and "finite_point q"
  shows "strokes_from st (drawLine (Some c) props p q @ rest)
           = (p, q) # strokes_from (Some q, [(p, q)]) rest"
proof -
  obtain cur ls where st: "st = (cur, ls)" by (cases st)
  from assms show ?thesis
    by (simp add: st drawLine_def finite_point_def Coordinates_eta)
qed

lemma strokes_from_drawLine_no_context:
  "\<not> context2d c \<Longrightarrow> strokes_from st (drawLine (Some c) props p q @ rest) = strokes_from st rest"
  by (cases st) (simp add: drawLine_def)

lemma strokes_from_drawLine_null:
  "strokes_from st (drawLine None props p q @ rest) = strokes_from st rest"
  by (cases st) (simp add: drawLine_def)

lemma strokes_from_log_effect:
  "strokes_from st (log_effect props s @ rest) = strokes_from st rest"
  by (cases st) (simp add: log_effect_def)

lemma strokes_from_after_render:
  "strokes_from st (after_render props s s' @ rest) = strokes_from st rest"
  by (simp add: after_render_def strokes_from_log_effect)

section \<open>Facts about the handlers and the steps\<close>

lemma onDown_cases:
  assumes "onDown c ev s = Inr s'"
  shows "s' = s \<or> (\<exists>q. getCoordinates c ev = Inr (Some q)
                     \<and> s' = s\<lparr>position := Some q, drawing := True\<rparr>)"
proof (cases "getCoordinates c ev")
  case (Inl e)
  with assms show ?thesis by (simp add: onDown_def)
next
  case (Inr r)
  show ?thesis
  proof (cases r)
    case None
    with assms Inr show ?thesis by (simp add: onDown_def)
  next
    case (Some q)
    with assms Inr have "s' = s\<lparr>position := Some q, drawing := True\<rparr>"
      by (simp add: onDown_def)
    with Inr Some show ?thesis by blast
  qed
qed

lemma onDown_Inr:
  assumes "onDown c ev s = Inr s'"
  shows "data s' = data s"
  using onDown_cases[OF assms] by (elim disjE exE conjE) simp_all

lemma onMove_closure_cases:
  assumes "onMove_closure E c props cl ev s = Inr (s', tr)"
  shows "(s' = s \<and> tr = [])
         \<or> (\<exists>p q. drawing cl \<and> position cl = Some p \<and> getCoordinates c ev = Inr (Some q)
                \<and> js_gt (getDistance E p q) (threshold props)
                \<and> s' = s\<lparr>position := Some q, data := data cl @ [q]\<rparr>
                \<and> tr = drawLine c props p q)"
proof (cases "drawing cl")
  case False
  with assms show ?thesis by (simp add: onMove_closure_def)
next
  case True
  note d = this
  show ?thesis
  proof (cases "getCoordinates c ev")
    case (Inl e)
    with assms d show ?thesis by (simp add: onMove_closure_def)
  next
    case (Inr r)
    note g = this
    show ?thesis
    proof (cases "position cl")
      case None
      with assms d g show ?thesis by (simp add: onMove_closure_def)
    next
      case (Some p)
      note ps = this
      show ?thesis
      proof (cases r)
        case None
        with assms d g ps show ?thesis by (simp add: onMove_closure_def)
      next
        case (Some q)
        with assms d g ps show ?thesis
          by (cases "js_gt (getDistance E p q) (threshold props)")
             (simp_all add: onMove_closure_def)
      qed
    qed
  qed
qed

lemma onMove_cases:
  assumes "onMove E c props ev s = Inr (s', tr)"
  shows "(s' = s \<and> tr = [])
         \<or> (\<exists>p q. drawing s \<and> position s = Some p \<and> getCoordinates c ev = Inr (Some q)
                \<and> js_gt (getDistance E p q) (threshold props)
                \<and> s' = s\<lparr>position := Some q, data := data s @ [q]\<rparr>
                \<and> tr = drawLine c props p q)"
  using onMove_closure_cases[of E c props s ev s s' tr] assms by (simp add: onMove_def)

lemma onMove_Inr:
  assumes "onMove E c props ev s = Inr (s', tr)"
  shows "drawing s' = drawing s \<and> data s' = data s @ map snd (render_calls tr)"
  using onMove_cases[OF assms]
  by (elim disjE exE conjE) (simp_all add: render_calls_drawLine)

text \<open>
  A group of moves on one closure: either none qualified and nothing happened, or the
  pending state holds the last qualifying point as position and the closure's path with
  that one point appended, whatever the number of segments drawn.
\<close>

lemma onMoves_cases:
  "onMoves E c props cl evs s = Inr (s', tr) \<Longrightarrow>
     (s' = s \<and> tr = [])
     \<or> (\<exists>q. s' = s\<lparr>position := Some q, data := data cl @ [q]\<rparr> \<and> render_calls tr \<noteq> [])"
proof (induction evs arbitrary: s tr)
  case Nil
  then show ?case by simp
next
  case (Cons ev evs)
  from Cons.prems obtain s1 t1 t2 where
    m: "onMove_closure E c props cl ev s = Inr (s1, t1)" and
    r: "onMoves E c props cl evs s1 = Inr (s', t2)" and
    tr: "tr = t1 @ t2"
    by (auto split: sum.splits)
  from onMove_closure_cases[OF m] show ?case
  proof (elim disjE exE conjE)
    assume "s1 = s" "t1 = []"
    with Cons.IH[OF r] tr show ?thesis by simp
  next
    fix p q
    assume s1: "s1 = s\<lparr>position := Some q, data := data cl @ [q]\<rparr>"
      and t1: "t1 = drawLine c props p q"
    from Cons.IH[OF r] show ?thesis
    proof (elim disjE exE conjE)
      assume "s' = s1" "t2 = []"
      with s1 t1 tr show ?thesis by (auto simp: render_calls_drawLine)
    next
      fix q'
      assume "s' = s1\<lparr>position := Some q', data := data cl @ [q']\<rparr>"
      with s1 t1 tr show ?thesis
        by (auto simp: render_calls_append render_calls_drawLine)
    qed
  qed
qed

lemma console_logs_onMoves:
  "onMoves E c props cl evs s = Inr (s', tr) \<Longrightarrow> console_logs tr = []"
proof (induction evs arbitrary: s tr)
  case Nil
  then show ?case by simp
next
  case (Cons ev evs)
  from Cons.prems obtain s1 t1 t2 where
    m: "onMove_closure E c props cl ev s = Inr (s1, t1)" and
    r: "onMoves E c props cl evs s1 = Inr (s', t2)" and
    tr: "tr = t1 @ t2"
    by (auto split: sum.splits)
  from onMove_closure_cases[OF m] have "console_logs t1 = []"
    by (elim disjE exE conjE) (simp_all add: console_logs_drawLine)
  with Cons.IH[OF r] tr show ?case by (simp add: console_logs_append)
qed

lemma step_Down_Inr:
  "step E props dpr (Down ev) w = Inr (w', tr) \<Longrightarrow>
     \<exists>s'. onDown (ref_current w) ev (component w) = Inr s'
          \<and> w' = w\<lparr>component := s'\<rparr> \<and> tr = after_render props (component w) s'"
  by (simp split: sum.splits)

lemma step_Move_Inr:
  "step E props dpr (Move ev) w = Inr (w', tr) \<Longrightarrow>
     \<exists>s' acts. onMove E (ref_current w) props ev (component w) = Inr (s', acts)
          \<and> w' = w\<lparr>component := s'\<rparr> \<and> tr = acts @ after_render props (component w) s'"
  by (simp split: sum.splits prod.splits)

lemma step_Moves_Inr:
  "step E props dpr (Moves evs) w = Inr (w', tr) \<Longrightarrow>
     \<exists>s' acts. onMoves E (ref_current w) props (component w) evs (component w) = Inr (s', acts)
          \<and> w' = w\<lparr>component := s'\<rparr> \<and> tr = acts @ after_render props (component w) s'"
  by (simp split: sum.splits prod.splits)

text \<open>A group of one move is a move that is rendered at once.\<close>

lemma step_Moves_single: "step E props dpr (Moves [ev]) w = step E props dpr (Move ev) w"
  by (simp add: onMove_def split: sum.splits prod.splits)

lemma step_pointer_ref:
  assumes "is_pointer i" and "step E props dpr i w = Inr (w', tr)"
  shows "ref_current w' = ref_current w"
proof (cases i)
  case (Down ev)
  with assms(2) show ?thesis using step_Down_Inr by fastforce
next
  case (Move ev)
  with assms(2) show ?thesis using step_Move_Inr by fastforce
next
  case (Moves evs)
  with assms(2) show ?thesis using step_Moves_Inr by fastforce
next
  case Up
  with assms(2) show ?thesis by auto
next
  case (Resize vw vh)
  with assms(1) show ?thesis by simp
qed

lemma run_pointer_ref:
  "list_all is_pointer inputs \<Longrightarrow> run E props dpr inputs w = Inr (w', tr) \<Longrightarrow>
     ref_current w' = ref_current w"
proof (induction inputs arbitrary: w tr)
  case Nil
  then show ?case by simp
next
  case (Cons i inputs)
  from Cons.prems(2) obtain w1 t1 t2 where
    s1: "step E props dpr i w = Inr (w1, t1)" and
    r2: "run E props dpr inputs w1 = Inr (w', t2)"
    by (auto split: sum.splits)
  from Cons.prems(1) have p: "is_pointer i" and ps: "list_all is_pointer inputs" by simp_all
  from step_pointer_ref[OF p s1] Cons.IH[OF ps r2] show ?case by simp
qed

text \<open>The path is empty exactly as long as no call of the stroke renderer was issued.\<close>

lemma step_pointer_empty:
  assumes "is_pointer i" and "step E props dpr i w = Inr (w', tr)"
  shows "(data (component w') = []) = (data (component w) = [] \<and> render_calls tr = [])"
proof (cases i)
  case (Down ev)
  with assms(2) obtain s' where
    "onDown (ref_current w) ev (component w) = Inr s'" "w' = w\<lparr>component := s'\<rparr>"
    "tr = after_render props (component w) s'"
    using step_Down_Inr by blast
  then show ?thesis
    using onDown_Inr by (simp add: render_calls_after_render)
next
  case (Move ev)
  with assms(2) obtain s' acts where
    "onMove E (ref_current w) props ev (component w) = Inr (s', acts)" "w' = w\<lparr>component := s'\<rparr>"
    "tr = acts @ after_render props (component w) s'"
    using step_Move_Inr by blast
  then show ?thesis
    using onMove_Inr by (auto simp: render_calls_append render_calls_after_render)
next
  case (Moves evs)
  with assms(2) obtain s' acts where
    m: "onMoves E (ref_current w) props (component w) evs (component w) = Inr (s', acts)"
    and w': "w' = w\<lparr>component := s'\<rparr>"
    and tr: "tr = acts @ after_render props (component w) s'"
    using step_Moves_Inr by blast
  from onMoves_cases[OF m] w' tr show ?thesis
    by (elim disjE exE conjE) (simp_all add: render_calls_append render_calls_after_render)
next
  case Up
  with assms(2) show ?thesis
    by (auto simp: onUp_def render_calls_after_render)
next
  case (Resize vw vh)
  with assms(1) show ?thesis by simp
qed

lemma run_pointer_empty:
  "list_all is_pointer inputs \<Longrightarrow> run E props dpr inputs w = Inr (w', tr) \<Longrightarrow>
     (data (component w') = []) = (data (component w) = [] \<and> render_calls tr = [])"
proof (induction inputs arbitrary: w tr)
  case Nil
  then show ?case by simp
next
  case (Cons i inputs)
  from Cons.prems(2) obtain w1 t1 t2 where
    s1: "step E props dpr i w = Inr (w1, t1)" and
    r2: "run E props dpr inputs w1 = Inr (w', t2)" and
    tr: "tr = t1 @ t2"
    by (auto split: sum.splits)
  from Cons.prems(1) have p: "is_pointer i" and ps: "list_all is_pointer inputs" by simp_all
  from step_pointer_empty[OF p s1] Cons.IH[OF ps r2] tr show ?case
    by (simp add: render_calls_append)
qed

text \<open>With recording disabled, pointer events write nothing to the console.\<close>

lemma step_pointer_quiet:
  assumes "recordPoints props \<noteq> Some True" and "is_pointer i"
    and "step E props dpr i w = Inr (w', tr)"
  shows "console_logs tr = []"
proof (cases i)
  case (Down ev)
  with assms(3) obtain s' where "tr = after_render props (component w) s'"
    using step_Down_Inr by blast
  with assms(1) show ?thesis by (simp add: console_logs_after_render)
next
  case (Move ev)
  with assms(3) obtain s' acts where
    m: "onMove E (ref_current w) props ev (component w) = Inr (s', acts)"
    and t: "tr = acts @ after_render props (component w) s'"
    using step_Move_Inr by blast
  from onMove_cases[OF m] have "console_logs acts = []"
    by (elim disjE exE conjE) (simp_all add: console_logs_drawLine)
  with t assms(1) show ?thesis
    by (simp add: console_logs_append console_logs_after_render)
next
  case (Moves evs)
  with assms(3) obtain s' acts where
    m: "onMoves E (ref_current w) props (component w) evs (component w) = Inr (s', acts)"
    and t: "tr = acts @ after_render props (component w) s'"
    using step_Moves_Inr by blast
  from console_logs_onMoves[OF m] t assms(1) show ?thesis
    by (simp add: console_logs_append console_logs_after_render)
next
  case Up
  with assms(1,3) show ?thesis by (auto simp: console_logs_after_render)
next
  case (Resize vw vh)
  with assms(2) show ?thesis by simp
qed

lemma run_pointer_quiet:
  "recordPoints props \<noteq> Some True \<Longrightarrow> list_all is_pointer inputs \<Longrightarrow>
     run E props dpr inputs w = Inr (w', tr) \<Longrightarrow> console_logs tr = []"
proof (induction inputs arbitrary: w tr)
  case Nil
  then show ?case by simp
next
  case (Cons i inputs)
  from Cons.prems(3) obtain w1 t1 t2 where
    s1: "step E props dpr i w = Inr (w1, t1)" and
    r2: "run E props dpr inputs w1 = Inr (w', t2)" and
    tr: "tr = t1 @ t2"
    by (auto split: sum.splits)
  from Cons.prems(2) have p: "is_pointer i" and ps: "list_all is_pointer inputs" by simp_all
  from step_pointer_quiet[OF Cons.prems(1) p s1] Cons.IH[OF Cons.prems(1) ps r2] tr
  show ?case by (simp add: console_logs_append)
qed

text \<open>The drawing flag is set only together with a position.\<close>

lemma step_session:
  assumes "step E props dpr i w = Inr (w', tr)"
    and "drawing (component w) \<longrightarrow> position (component w) \<noteq> None"
  shows "drawing (component w') \<longrightarrow> position (component w') \<noteq> None"
proof (cases i)
  case (Down ev)
  with assms(1) obtain s' where
    d: "onDown (ref_current w) ev (component w) = Inr s'" and w': "w' = w\<lparr>component := s'\<rparr>"
    using step_Down_Inr by blast
  from onDown_cases[OF d] assms(2) w' show ?thesis
    by (elim disjE exE conjE) simp_all
next
  case (Move ev)
  with assms(1) obtain s' acts where
    m: "onMove E (ref_current w) props ev (component w) = Inr (s', acts)"
    and w': "w' = w\<lparr>component := s'\<rparr>"
    using step_Move_Inr by blast
  from onMove_cases[OF m] assms(2) w' show ?thesis
    by (elim disjE exE conjE) simp_all
next
  case (Moves evs)
  with assms(1) obtain s' acts where
    m: "onMoves E (ref_current w) props (component w) evs (component w) = Inr (s', acts)"
    and w': "w' = w\<lparr>component := s'\<rparr>"
    using step_Moves_Inr by blast
  from onMoves_cases[OF m] assms(2) w' show ?thesis
    by (elim disjE exE conjE) simp_all
next
  case Up
  with assms(1) show ?thesis by (auto simp: onUp_def)
next
  case (Resize vw vh)
  with assms show ?thesis by (auto split: option.splits prod.splits)
qed

lemma run_session:
  "run E props dpr inputs w = Inr (w', tr) \<Longrightarrow>
     (drawing (component w) \<longrightarrow> position (component w) \<noteq> None) \<Longrightarrow>
     drawing (component w') \<longrightarrow> position (component w') \<noteq> None"
proof (induction inputs arbitrary: w tr)
  case Nil
  then show ?case by simp
next
  case (Cons i inputs)
  from Cons.prems(1) obtain w1 t1 t2 where
    s1: "step E props dpr i w = Inr (w1, t1)" and
    r2: "run E props dpr inputs w1 = Inr (w', t2)"
    by (auto split: sum.splits)
  from Cons.IH[OF r2 step_session[OF s1 Cons.prems(2)]] show ?case .
qed

text \<open>Only pointer-up leaves the drawing state.\<close>

lemma step_stops_drawing:
  assumes "drawing (component w)" and "step E props dpr i w = Inr (w', tr)"
    and "\<not> drawing (component w')"
  shows "i = Up"
proof (cases i)
  case (Down ev)
  with assms(2) obtain s' where
    d: "onDown (ref_current w) ev (component w) = Inr s'" and w': "w' = w\<lparr>component := s'\<rparr>"
    using step_Down_Inr by blast
  from onDown_cases[OF d] assms(1,3) w' show ?thesis
    by (elim disjE exE conjE) simp_all
next
  case (Move ev)
  with assms(2) obtain s' acts where
    m: "onMove E (ref_current w) props ev (component w) = Inr (s', acts)"
    and w': "w' = w\<lparr>component := s'\<rparr>"
    using step_Move_Inr by blast
  from onMove_Inr[OF m] assms(1,3) w' show ?thesis by simp
next
  case (Moves evs)
  with assms(2) obtain s' acts where
    m: "onMoves E (ref_current w) props (component w) evs (component w) = Inr (s', acts)"
    and w': "w' = w\<lparr>component := s'\<rparr>"
    using step_Moves_Inr by blast
  from onMoves_cases[OF m] assms(1,3) w' show ?thesis
    by (elim disjE exE conjE) simp_all
next
  case Up
  then show ?thesis .
next
  case (Resize vw vh)
  with assms show ?thesis by (auto split: option.splits prod.splits)
qed








section \<open>Events that are rendered one at a time\<close>

lemma step_plain_data:
  assumes "plain cr i" and "step E props dpr i w = Inr (w', tr)"
  shows "data (component w') = data (component w) @ map snd (render_calls tr)"
proof (cases i)
  case (Down ev)
  with assms(2) obtain s' where
    "onDown (ref_current w) ev (component w) = Inr s'" "w' = w\<lparr>component := s'\<rparr>"
    "tr = after_render props (component w) s'"
    using step_Down_Inr by blast
  then show ?thesis
    using onDown_Inr by (simp add: render_calls_after_render)
next
  case (Move ev)
  with assms(2) obtain s' acts where
    "onMove E (ref_current w) props ev (component w) = Inr (s', acts)" "w' = w\<lparr>component := s'\<rparr>"
    "tr = acts @ after_render props (component w) s'"
    using step_Move_Inr by blast
  then show ?thesis
    using onMove_Inr by (simp add: render_calls_append render_calls_after_render)
next
  case (Moves evs)
  with assms(1) show ?thesis by simp
next
  case Up
  with assms(2) show ?thesis
    by (auto simp: onUp_def render_calls_after_render)
next
  case (Resize vw vh)
  with assms(1) show ?thesis by simp
qed

lemma plain_is_pointer: "plain cr i \<Longrightarrow> is_pointer i"
  by (cases i) simp_all

lemma list_all_plain_is_pointer: "list_all (plain cr) inputs \<Longrightarrow> list_all is_pointer inputs"
  by (induction inputs) (auto intro: plain_is_pointer)

lemma run_plain_data:
  "list_all (plain cr) inputs \<Longrightarrow> run E props dpr inputs w = Inr (w', tr) \<Longrightarrow>
     data (component w') = data (component w) @ map snd (render_calls tr)"
proof (induction inputs arbitrary: w tr)
  case Nil
  then show ?case by simp
next
  case (Cons i inputs)
  from Cons.prems(2) obtain w1 t1 t2 where
    s1: "step E props dpr i w = Inr (w1, t1)" and
    r2: "run E props dpr inputs w1 = Inr (w', t2)" and
    tr: "tr = t1 @ t2"
    by (auto split: sum.splits)
  from Cons.prems(1) have p: "plain cr i" and ps: "list_all (plain cr) inputs" by simp_all
  from step_plain_data[OF p s1] Cons.IH[OF ps r2] tr show ?case
    by (simp add: render_calls_append)
qed

text \<open>Every recorded point is the mapped point of a move event.\<close>

lemma step_plain_sources:
  assumes "plain cr i" and "step E props dpr i w = Inr (w', tr)"
    and "q \<in> set (data (component w'))"
  shows "q \<in> set (data (component w))
         \<or> (\<exists>ev. i = Move ev \<and> getCoordinates (ref_current w) ev = Inr (Some q))"
proof (cases i)
  case (Down ev)
  with assms(2) obtain s' where
    d: "onDown (ref_current w) ev (component w) = Inr s'" and w': "w' = w\<lparr>component := s'\<rparr>"
    using step_Down_Inr by blast
  from onDown_Inr[OF d] w' assms(3) show ?thesis by simp
next
  case (Move ev)
  with assms(2) obtain s' acts where
    m: "onMove E (ref_current w) props ev (component w) = Inr (s', acts)"
    and w': "w' = w\<lparr>component := s'\<rparr>"
    using step_Move_Inr by blast
  from onMove_cases[OF m] w' assms(3) Move show ?thesis
    by (elim disjE exE conjE) auto
next
  case (Moves evs)
  with assms(1) show ?thesis by simp
next
  case Up
  with assms(2,3) show ?thesis by (auto simp: onUp_def)
next
  case (Resize vw vh)
  with assms(1) show ?thesis by simp
qed

lemma run_plain_sources:
  "list_all (plain cr) inputs \<Longrightarrow> run E props dpr inputs w = Inr (w', tr) \<Longrightarrow>
     q \<in> set (data (component w')) \<Longrightarrow>
     q \<in> set (data (component w))
     \<or> (\<exists>ev. Move ev \<in> set inputs \<and> getCoordinates (ref_current w) ev = Inr (Some q))"
proof (induction inputs arbitrary: w tr)
  case Nil
  then show ?case by simp
next
  case (Cons i inputs)
  from Cons.prems(2) obtain w1 t1 t2 where
    s1: "step E props dpr i w = Inr (w1, t1)" and
    r2: "run E props dpr inputs w1 = Inr (w', t2)"
    by (auto split: sum.splits)
  from Cons.prems(1) have p: "plain cr i" and ps: "list_all (plain cr) inputs" by simp_all
  from step_pointer_ref[OF plain_is_pointer[OF p] s1] have rc: "ref_current w1 = ref_current w" .
  from Cons.IH[OF ps r2 Cons.prems(3)] show ?case
  proof
    assume "q \<in> set (data (component w1))"
    from step_plain_sources[OF p s1 this] show ?thesis by auto
  next
    assume "\<exists>ev. Move ev \<in> set inputs \<and> getCoordinates (ref_current w1) ev = Inr (Some q)"
    with rc show ?thesis by auto
  qed
qed

text \<open>
  On a canvas with a 2D context, with finite coordinates, the segments stroked by such an
  event are those of its calls of the stroke renderer, whatever the path was before and
  whatever follows.
\<close>

lemma step_plain_strokes:
  assumes "plain (Some c) i" and "ref_current w = Some c" and "context2d c"
    and "step E props dpr i w = Inr (w', tr)"
    and "\<forall>p. position (component w) = Some p \<longrightarrow> finite_point p"
  shows "(\<forall>p. position (component w') = Some p \<longrightarrow> finite_point p)
         \<and> (\<forall>st rest. \<exists>st'. strokes_from st (tr @ rest) = render_calls tr @ strokes_from st' rest)"
proof (cases i)
  case (Down ev)
  with assms(4) obtain s' where
    d: "onDown (ref_current w) ev (component w) = Inr s'" and w': "w' = w\<lparr>component := s'\<rparr>"
    and tr: "tr = after_render props (component w) s'"
    using step_Down_Inr by blast
  from assms(1) Down have mf: "maps_finite (Some c) ev" by simp
  have fin: "\<forall>p. position (component w') = Some p \<longrightarrow> finite_point p"
    using onDown_cases[OF d] assms(2,5) w' mf
    by (elim disjE exE conjE) (simp_all add: maps_finite_def)
  have "\<exists>st'. strokes_from st (tr @ rest) = render_calls tr @ strokes_from st' rest" for st rest
    by (rule exI[of _ st]) (simp add: tr strokes_from_after_render render_calls_after_render)
  with fin show ?thesis by blast
next
  case (Move ev)
  with assms(4) obtain s' acts where
    m: "onMove E (ref_current w) props ev (component w) = Inr (s', acts)"
    and w': "w' = w\<lparr>component := s'\<rparr>"
    and tr: "tr = acts @ after_render props (component w) s'"
    using step_Move_Inr by blast
  from assms(1) Move have mf: "maps_finite (Some c) ev" by simp
  from onMove_cases[OF m] show ?thesis
  proof (elim disjE exE conjE)
    assume "s' = component w" "acts = []"
    with w' tr assms(5) have fin: "\<forall>p. position (component w') = Some p \<longrightarrow> finite_point p"
      and tr': "tr = after_render props (component w) (component w)"
      by simp_all
    have "\<exists>st'. strokes_from st (tr @ rest) = render_calls tr @ strokes_from st' rest" for st rest
      by (rule exI[of _ st]) (simp add: tr' strokes_from_after_render render_calls_after_render)
    with fin show ?thesis by blast
  next
    fix p q
    assume pos: "position (component w) = Some p"
      and g: "getCoordinates (ref_current w) ev = Inr (Some q)"
      and s': "s' = (component w)\<lparr>position := Some q, data := data (component w) @ [q]\<rparr>"
      and acts: "acts = drawLine (ref_current w) props p q"
    from pos assms(5) have fp: "finite_point p" by simp
    from g mf assms(2) have fq: "finite_point q" by (simp add: maps_finite_def)
    from s' w' fq have fin: "\<forall>p. position (component w') = Some p \<longrightarrow> finite_point p"
      by simp
    have "strokes_from st (tr @ rest)
            = render_calls tr @ strokes_from (Some q, [(p, q)]) rest" for st rest
      using strokes_from_drawLine[OF assms(3) fp fq, of st props
              "after_render props (component w) s' @ rest"]
      by (simp add: tr acts assms(2) strokes_from_after_render render_calls_append
            render_calls_drawLine render_calls_after_render)
    then have "\<exists>st'. strokes_from st (tr @ rest) = render_calls tr @ strokes_from st' rest"
      for st rest by blast
    with fin show ?thesis by blast
  qed
next
  case (Moves evs)
  with assms(1) show ?thesis by simp
next
  case Up
  with assms(4) have w': "w' = w\<lparr>component := onUp (component w)\<rparr>"
    and tr: "tr = after_render props (component w) (onUp (component w))"
    by auto
  have fin: "\<forall>p. position (component w') = Some p \<longrightarrow> finite_point p"
    by (simp add: w' onUp_def)
  have "\<exists>st'. strokes_from st (tr @ rest) = render_calls tr @ strokes_from st' rest" for st rest
    by (rule exI[of _ st]) (simp add: tr strokes_from_after_render render_calls_after_render)
  with fin show ?thesis by blast
next
  case (Resize vw vh)
  with assms(1) show ?thesis by simp
qed

lemma run_plain_strokes:
  "list_all (plain (Some c)) inputs \<Longrightarrow> ref_current w = Some c \<Longrightarrow> context2d c \<Longrightarrow>
     run E props dpr inputs w = Inr (w', tr) \<Longrightarrow>
     \<forall>p. position (component w) = Some p \<longrightarrow> finite_point p \<Longrightarrow>
     \<exists>st'. strokes_from st (tr @ rest) = render_calls tr @ strokes_from st' rest"
proof (induction inputs arbitrary: w tr st)
  case Nil
  then have "tr = []" by simp
  then have "strokes_from st (tr @ rest) = render_calls tr @ strokes_from st rest" by simp
  then show ?case by blast
next
  case (Cons i inputs)
  from Cons.prems(4) obtain w1 t1 t2 where
    s1: "step E props dpr i w = Inr (w1, t1)" and
    r2: "run E props dpr inputs w1 = Inr (w', t2)" and
    tr: "tr = t1 @ t2"
    by (auto split: sum.splits)
  from Cons.prems(1) have p: "plain (Some c) i" and ps: "list_all (plain (Some c)) inputs"
    by simp_all
  from step_pointer_ref[OF plain_is_pointer[OF p] s1] Cons.prems(2)
  have rc: "ref_current w1 = Some c" by simp
  from step_plain_strokes[OF p Cons.prems(2,3) s1 Cons.prems(5)]
  have fin: "\<forall>p. position (component w1) = Some p \<longrightarrow> finite_point p"
    and one: "\<And>st rest. \<exists>st'. strokes_from st (t1 @ rest) = render_calls t1 @ strokes_from st' rest"
    by blast+
  from one[of st "t2 @ rest"] obtain st1 where
    a: "strokes_from st (t1 @ t2 @ rest) = render_calls t1 @ strokes_from st1 (t2 @ rest)"
    by blast
  from Cons.IH[OF ps rc Cons.prems(3) r2 fin, of st1] obtain st' where
    b: "strokes_from st1 (t2 @ rest) = render_calls t2 @ strokes_from st' rest"
    by blast
  from a b tr show ?case
    by (intro exI[of _ st']) (simp add: render_calls_append)
qed

lemma run_plain_stroked:
  assumes "list_all (plain (Some c)) inputs" and "context2d c"
    and "run E props dpr inputs (initial (Some c)) = Inr (w, tr)"
  shows "stroked tr = render_calls tr"
proof -
  have rc: "ref_current (initial (Some c)) = Some c"
    and fin: "\<forall>p. position (component (initial (Some c))) = Some p \<longrightarrow> finite_point p"
    by (simp_all add: initial_def)
  from run_plain_strokes[OF assms(1) rc assms(2,3) fin, of "(None, [])" "[]"]
  obtain st' where "strokes_from (None, []) (tr @ []) = render_calls tr @ strokes_from st' []"
    by blast
  then show ?thesis by (cases st') (simp add: stroked_def)
qed

section \<open>The claims\<close>

subsection \<open>Distance threshold of a move event\<close>

text \<open>
  Claim C2, as stated, fails in four ways. The handler compares the distance as
  \<open>getDistance\<close> computes it in double arithmetic, not the Euclidean distance: with the
  threshold \<open>2 ^ 27\<close>, a move from (0, 0) to (\<open>2 ^ 27\<close>, 1) is farther than the threshold,
  but the computed distance is \<open>2 ^ 27\<close> and nothing happens. A qualifying move on a canvas
  without a 2D context calls the stroke renderer and updates the position, but no segment
  is rendered. The position the handler measures from is the one of the last render:
  when the moves to (3, 4) and to (4, 3) are handled before the component renders again,
  the second one is nearer than the threshold to the position (3, 4) that the first one
  has set, and still a segment is rendered, from (0, 0). And a qualifying move to a point
  with an infinite coordinate renders nothing, since the 2D context ignores a \<open>lineTo\<close>
  whose argument is not finite.
\<close>

theorem computed_distance_and_missing_context:
  "(2 ^ 27 :: real) < sqrt ((2 ^ 27 - 0)\<^sup>2 + (1 - 0)\<^sup>2)
   \<and> threshold wide_props = Num (2 ^ 27)
   \<and> getCoordinates (Some mounted) wide_move = Inr (Some (pt (2 ^ 27) 1))
   \<and> onMove binary64 (Some mounted) wide_props wide_move stroke_start = Inr (stroke_start, [])
   \<and> getCoordinates (Some no_context) (mouse ''mousemove'' 3 4) = Inr (Some (pt 3 4))
   \<and> getDistance binary64 (pt 0 0) (pt 3 4) = Num 5
   \<and> js_gt (Num 5) (threshold IndexPage_props)
   \<and> onMove binary64 (Some no_context) IndexPage_props (mouse ''mousemove'' 3 4) stroke_start
       = Inr (\<lparr>drawing = True, position = Some (pt 3 4), data = [pt 3 4]\<rparr>,
              [Call_drawLine (pt 0 0) (pt 3 4)])
   \<and> stroked [Call_drawLine (pt 0 0) (pt 3 4)] = []
   \<and> sqrt ((4 - 3)\<^sup>2 + (3 - 4)\<^sup>2) \<le> (4 :: real)
   \<and> onMoves binary64 (Some mounted) IndexPage_props stroke_start
        [mouse ''mousemove'' 3 4, mouse ''mousemove'' 4 3] stroke_start
       = Inr (\<lparr>drawing = True, position = Some (pt 4 3), data = [pt 4 3]\<rparr>,
              drawLine (Some mounted) IndexPage_props (pt 0 0) (pt 3 4)
              @ drawLine (Some mounted) IndexPage_props (pt 0 0) (pt 4 3))
   \<and> getCoordinates (Some far_left) far_move = Inr (Some far_point)
   \<and> onMove binary64 (Some far_left) IndexPage_props far_move stroke_start
       = Inr (\<lparr>drawing = True, position = Some far_point, data = [far_point]\<rparr>,
              drawLine (Some far_left) IndexPage_props (pt 0 0) far_point)
   \<and> stroked (drawLine (Some far_left) IndexPage_props (pt 0 0) far_point) = []"
proof -
  have 1: "(2 ^ 27 :: real) < sqrt ((2 ^ 27 - 0)\<^sup>2 + (1 - 0)\<^sup>2)"
    by (rule real_less_rsqrt) simp
  have 2: "threshold wide_props = Num (2 ^ 27)"
    by (simp add: wide_props_def)
  have 3: "getCoordinates (Some mounted) wide_move = Inr (Some (pt (2 ^ 27) 1))"
    by (simp add: getCoordinates_def wide_move_def mouse_def mounted_def pt_def js_eval)
  have sum: "fl (18014398509481985) = Num 18014398509481984"
    using fl_rounds_2_54_plus_1 by simp
  have root: "sqrt 18014398509481984 = 134217728"
    using sqrt_2_54 by simp
  have sq: "fl 18014398509481984 = Num 18014398509481984"
    using fl_2_54 by simp
  have d: "getDistance binary64 (pt 0 0) (pt (2 ^ 27) 1) = Num (2 ^ 27)"
    by (simp add: getDistance_def pt_def js_eval sq sum root)
  have 4: "onMove binary64 (Some mounted) wide_props wide_move stroke_start = Inr (stroke_start, [])"
    using d by (simp add: onMove_def onMove_closure_def 3 stroke_start_def wide_props_def)
  have 5: "getCoordinates (Some no_context) (mouse ''mousemove'' 3 4) = Inr (Some (pt 3 4))"
    by (simp add: getCoordinates_def mouse_def no_context_def mounted_def pt_def js_eval)
  have 6: "getDistance binary64 (pt 0 0) (pt 3 4) = Num 5"
    by (simp add: getDistance_def pt_def js_eval)
  have 7: "js_gt (Num 5) (threshold IndexPage_props)"
    by (simp add: IndexPage_props_def)
  have 8: "onMove binary64 (Some no_context) IndexPage_props (mouse ''mousemove'' 3 4) stroke_start
       = Inr (\<lparr>drawing = True, position = Some (pt 3 4), data = [pt 3 4]\<rparr>,
              [Call_drawLine (pt 0 0) (pt 3 4)])"
  proof -
    have nc: "\<not> context2d no_context" by (simp add: no_context_def)
    show ?thesis
      using 5 6 7 nc
      by (simp add: onMove_def onMove_closure_def stroke_start_def drawLine_def)
  qed
  have 9: "stroked [Call_drawLine (pt 0 0) (pt 3 4)] = []"
    by (simp add: stroked_def)
  have 10: "sqrt ((4 - 3)\<^sup>2 + (3 - 4)\<^sup>2) \<le> (4 :: real)"
    by (rule real_le_lsqrt) simp_all
  have 11: "onMoves binary64 (Some mounted) IndexPage_props stroke_start
        [mouse ''mousemove'' 3 4, mouse ''mousemove'' 4 3] stroke_start
       = Inr (\<lparr>drawing = True, position = Some (pt 4 3), data = [pt 4 3]\<rparr>,
              drawLine (Some mounted) IndexPage_props (pt 0 0) (pt 3 4)
              @ drawLine (Some mounted) IndexPage_props (pt 0 0) (pt 4 3))"
    by (simp add: onMove_closure_def getCoordinates_def getDistance_def stroke_start_def
          mouse_def mounted_def IndexPage_props_def pt_def js_eval)
  have 12: "getCoordinates (Some far_left) far_move = Inr (Some far_point)"
    by (simp add: getCoordinates_def far_left_def far_move_def far_point_def mouse_def mounted_def
          js_eval fl_2_1024[simplified])
  have far: "js_gt (getDistance binary64 (pt 0 0) far_point) (threshold IndexPage_props)"
    by (simp add: getDistance_def far_point_def pt_def IndexPage_props_def js_eval)
  have 13: "onMove binary64 (Some far_left) IndexPage_props far_move stroke_start
       = Inr (\<lparr>drawing = True, position = Some far_point, data = [far_point]\<rparr>,
              drawLine (Some far_left) IndexPage_props (pt 0 0) far_point)"
    using far by (simp add: onMove_def onMove_closure_def 12 stroke_start_def)
  have 14: "stroked (drawLine (Some far_left) IndexPage_props (pt 0 0) far_point) = []"
    by (simp add: stroked_def drawLine_def far_left_def mounted_def far_point_def pt_def)
  from 1 2 3 4 5 6 7 8 9 10 11 12 13 14 show ?thesis by blast
qed

text \<open>
  Claim C2, amended. For a move event while a stroke is active that is handled on the
  state of the last render (no earlier move is still waiting to be rendered), with current
  position \<open>p\<close> and mapped candidate \<open>q\<close>, the handler compares with the threshold the
  distance that \<open>getDistance\<close> computes in double arithmetic,
  \<open>Math.sqrt((q.x - p.x) ** 2 + (q.y - p.y) ** 2)\<close>; with correct rounding this is the
  Euclidean distance from \<open>p\<close> to \<open>q\<close> whenever no intermediate result has to be rounded. If
  the computed distance is not greater than the threshold, nothing is rendered and the
  state, with it the current position, is unchanged. If it is greater, exactly one call
  of the stroke renderer is issued, from \<open>p\<close> to \<open>q\<close>, and the current position becomes
  \<open>q\<close>; that call strokes exactly the one segment from \<open>p\<close> to \<open>q\<close> when the canvas has a 2D
  context and the coordinates are finite, and strokes nothing otherwise.
\<close>

theorem onMove_threshold:
  assumes "drawing s" and "position s = Some p"
    and "getCoordinates canvasRef ev = Inr (Some q)"
  shows "getDistance E p q
           = Math_sqrt E (js_add (square E (js_sub (x q) (x p))) (square E (js_sub (y q) (y p))))
       \<and> (\<forall>a b c d. p = pt a b \<and> q = pt c d
             \<and> fl (c - a) = Num (c - a) \<and> fl (d - b) = Num (d - b)
             \<and> fl ((c - a) * (c - a)) = Num ((c - a) * (c - a))
             \<and> fl ((d - b) * (d - b)) = Num ((d - b) * (d - b))
             \<and> fl ((c - a) * (c - a) + (d - b) * (d - b))
                 = Num ((c - a) * (c - a) + (d - b) * (d - b))
             \<and> fl (sqrt ((c - a)\<^sup>2 + (d - b)\<^sup>2)) = Num (sqrt ((c - a)\<^sup>2 + (d - b)\<^sup>2))
             \<longrightarrow> getDistance binary64 p q = Num (sqrt ((c - a)\<^sup>2 + (d - b)\<^sup>2)))
       \<and> (\<not> js_gt (getDistance E p q) (threshold props) \<longrightarrow>
            onMove E canvasRef props ev s = Inr (s, []))
       \<and> (js_gt (getDistance E p q) (threshold props) \<longrightarrow>
            onMove E canvasRef props ev s =
              Inr (s\<lparr>position := Some q, data := data s @ [q]\<rparr>, drawLine canvasRef props p q)
            \<and> render_calls (drawLine canvasRef props p q) = [(p, q)]
            \<and> (\<forall>st. strokes_from st (drawLine canvasRef props p q) =
                  (if (\<exists>c. canvasRef = Some c \<and> context2d c) \<and> finite_point p \<and> finite_point q
                   then [(p, q)] else [])))"
proof -
  have formula: "getDistance E p q
           = Math_sqrt E (js_add (square E (js_sub (x q) (x p))) (square E (js_sub (y q) (y p))))"
    by (simp add: getDistance_def)
  have exact: "getDistance binary64 p q = Num (sqrt ((c - a)\<^sup>2 + (d - b)\<^sup>2))"
    if "p = pt a b" "q = pt c d"
      "fl (c - a) = Num (c - a)" "fl (d - b) = Num (d - b)"
      "fl ((c - a) * (c - a)) = Num ((c - a) * (c - a))"
      "fl ((d - b) * (d - b)) = Num ((d - b) * (d - b))"
      "fl ((c - a) * (c - a) + (d - b) * (d - b)) = Num ((c - a) * (c - a) + (d - b) * (d - b))"
      "fl (sqrt ((c - a)\<^sup>2 + (d - b)\<^sup>2)) = Num (sqrt ((c - a)\<^sup>2 + (d - b)\<^sup>2))"
    for a b c d
    using getDistance_exact[OF that(3-8)] that(1,2) by (simp add: pt_def)
  have skip: "onMove E canvasRef props ev s = Inr (s, [])"
    if "\<not> js_gt (getDistance E p q) (threshold props)"
    using assms that by (simp add: onMove_def onMove_closure_def)
  have draw: "onMove E canvasRef props ev s =
              Inr (s\<lparr>position := Some q, data := data s @ [q]\<rparr>, drawLine canvasRef props p q)"
    if "js_gt (getDistance E p q) (threshold props)"
    using assms that by (simp add: onMove_def onMove_closure_def)
  have calls: "render_calls (drawLine canvasRef props p q) = [(p, q)]"
    by (rule render_calls_drawLine)
  have strokes: "strokes_from st (drawLine canvasRef props p q) =
                  (if (\<exists>c. canvasRef = Some c \<and> context2d c) \<and> finite_point p \<and> finite_point q
                   then [(p, q)] else [])" for st
  proof (cases canvasRef)
    case None
    then show ?thesis
      using strokes_from_drawLine_null[of st props p q "[]"] by (cases st) simp
  next
    case (Some c)
    show ?thesis
    proof (cases "context2d c")
      case False
      with Some show ?thesis
        using strokes_from_drawLine_no_context[of c st props p q "[]"] by (cases st) simp
    next
      case True
      obtain cur ls where st: "st = (cur, ls)" by (cases st)
      show ?thesis
      proof (cases "finite_point p \<and> finite_point q")
        case True
        with \<open>context2d c\<close> Some show ?thesis
          using strokes_from_drawLine[of c p q st props "[]"] by (simp add: st)
      next
        case False
        with \<open>context2d c\<close> Some show ?thesis
          by (auto simp: st drawLine_def finite_point_def)
      qed
    qed
  qed
  from formula exact skip draw calls strokes show ?thesis by blast
qed

theorem onMove_threshold_witness:
  "getDistance binary64 (pt 0 0) (pt 0 3) = Num 3
   \<and> onMove binary64 (Some mounted) IndexPage_props (mouse ''mousemove'' 0 3) stroke_start
       = Inr (stroke_start, [])
   \<and> getDistance binary64 (pt 0 0) (pt 3 4) = Num 5
   \<and> getDistance binary64 (pt 0 0) (pt 3 4) = Num (sqrt ((3 - 0)\<^sup>2 + (4 - 0)\<^sup>2))
   \<and> onMove binary64 (Some mounted) IndexPage_props (mouse ''mousemove'' 3 4) stroke_start
       = Inr (\<lparr>drawing = True, position = Some (pt 3 4), data = [pt 3 4]\<rparr>,
              drawLine (Some mounted) IndexPage_props (pt 0 0) (pt 3 4))
   \<and> render_calls (drawLine (Some mounted) IndexPage_props (pt 0 0) (pt 3 4)) = [(pt 0 0, pt 3 4)]
   \<and> stroked (drawLine (Some mounted) IndexPage_props (pt 0 0) (pt 3 4)) = [(pt 0 0, pt 3 4)]"
proof -
  have d: "drawing stroke_start" and p: "position stroke_start = Some (pt 0 0)"
    by (simp_all add: stroke_start_def)
  have g3: "getCoordinates (Some mounted) (mouse ''mousemove'' 0 3) = Inr (Some (pt 0 3))"
    and g5: "getCoordinates (Some mounted) (mouse ''mousemove'' 3 4) = Inr (Some (pt 3 4))"
    by (simp_all add: getCoordinates_def mounted_def mouse_def pt_def js_eval)
  note t3 = onMove_threshold[OF d p g3, of binary64 IndexPage_props]
  note t5 = onMove_threshold[OF d p g5, of binary64 IndexPage_props]
  have d3: "getDistance binary64 (pt 0 0) (pt 0 3) = Num 3"
    by (subst t3[THEN conjunct1]) (simp add: pt_def js_eval)
  have d5: "getDistance binary64 (pt 0 0) (pt 3 4) = Num 5"
    by (subst t5[THEN conjunct1]) (simp add: pt_def js_eval)
  have le: "\<not> js_gt (getDistance binary64 (pt 0 0) (pt 0 3)) (threshold IndexPage_props)"
    and gt: "js_gt (getDistance binary64 (pt 0 0) (pt 3 4)) (threshold IndexPage_props)"
    by (simp_all add: d3 d5 IndexPage_props_def)
  have skip: "onMove binary64 (Some mounted) IndexPage_props (mouse ''mousemove'' 0 3) stroke_start
       = Inr (stroke_start, [])"
    using t3[THEN conjunct2, THEN conjunct2, THEN conjunct1] le by blast
  note drawn = t5[THEN conjunct2, THEN conjunct2, THEN conjunct2, rule_format, OF gt]
  have draw: "onMove binary64 (Some mounted) IndexPage_props (mouse ''mousemove'' 3 4) stroke_start
       = Inr (\<lparr>drawing = True, position = Some (pt 3 4), data = [pt 3 4]\<rparr>,
              drawLine (Some mounted) IndexPage_props (pt 0 0) (pt 3 4))"
    using drawn[THEN conjunct1] by (simp add: stroke_start_def)
  have calls: "render_calls (drawLine (Some mounted) IndexPage_props (pt 0 0) (pt 3 4))
                 = [(pt 0 0, pt 3 4)]"
    using drawn[THEN conjunct2, THEN conjunct1] .
  have c: "\<exists>c. Some mounted = Some c \<and> context2d c" by (simp add: mounted_def)
  have f: "finite_point (pt 0 0)" "finite_point (pt 3 4)" by (simp_all add: finite_point_def pt_def)
  have strokes: "stroked (drawLine (Some mounted) IndexPage_props (pt 0 0) (pt 3 4))
                   = [(pt 0 0, pt 3 4)]"
    using drawn[THEN conjunct2, THEN conjunct2, rule_format, of "(None, [])"] c f
    by (simp add: stroked_def)
  have euclid: "getDistance binary64 (pt 0 0) (pt 3 4) = Num (sqrt ((3 - 0)\<^sup>2 + (4 - 0)\<^sup>2))"
    by (rule t5[THEN conjunct2, THEN conjunct1, rule_format, of 0 0 3 4])
       (simp add: fl_Ints sqrt_25)
  from d3 skip d5 euclid draw calls strokes show ?thesis by blast
qed

subsection \<open>Pointer-down\<close>

text \<open>
  Claim C7. Whenever the coordinate mapping of a pointer-down or touch-down event succeeds
  with the point \<open>c\<close>, the handler sets the drawing flag and makes \<open>c\<close> the current
  position, whatever the state was before; the recorded path is untouched and nothing is
  rendered.
\<close>

theorem onDown_starts_drawing:
  assumes "getCoordinates (ref_current w) ev = Inr (Some c)"
  shows "onDown (ref_current w) ev (component w) = Inr ((component w)\<lparr>position := Some c, drawing := True\<rparr>)
       \<and> (\<exists>tr. step E props dpr (Down ev) w =
                  Inr (w\<lparr>component := (component w)\<lparr>position := Some c, drawing := True\<rparr>\<rparr>, tr)
                \<and> render_calls tr = [])"
  using assms by (simp add: onDown_def render_calls_after_render)

theorem onDown_starts_drawing_witness:
  "onDown (Some mounted) (mouse ''mousedown'' 7 9) stroke_start
     = Inr \<lparr>drawing = True, position = Some (pt 7 9), data = []\<rparr>
   \<and> onDown (Some mounted) (mouse ''mousedown'' 7 9) (component (initial (Some mounted)))
     = Inr \<lparr>drawing = True, position = Some (pt 7 9), data = []\<rparr>"
proof -
  have g: "getCoordinates (ref_current \<lparr>component = s, ref_current = Some mounted\<rparr>)
             (mouse ''mousedown'' 7 9) = Inr (Some (pt 7 9))" for s
    by (simp add: getCoordinates_def mounted_def mouse_def pt_def js_eval)
  show ?thesis
    using onDown_starts_drawing[OF g, of stroke_start binary64 IndexPage_props None]
      onDown_starts_drawing[OF g, of "component (initial (Some mounted))" binary64 IndexPage_props None]
    by (simp add: stroke_start_def initial_def)
qed

subsection \<open>What \<open>recordPoints\<close> controls\<close>



subsection \<open>The coordinate mapper\<close>

text \<open>
  Claim C6, as stated, fails for touch events: the mapper reads the page coordinates
  \<open>pageX\<close> and \<open>pageY\<close> of the first touch, not its client coordinates. On a touch whose page
  position is (10, 20) and whose client position is (3, 4), as on a page scrolled by
  (7, 16), the result is (10, 20) and not (3, 4).
\<close>

theorem getCoordinates_touch_page_not_client:
  "getCoordinates (Some mounted) touch_event = Inr (Some (pt 10 20))
   \<and> \<lparr>x = js_sub (Touch.clientX (hd (touches touch_event))) (offsetLeft mounted),
       y = js_sub (Touch.clientY (hd (touches touch_event))) (offsetTop mounted)\<rparr> = pt 3 4
   \<and> pt 10 20 \<noteq> pt 3 4"
  by (simp add: getCoordinates_def touch_event_def mounted_def pt_def js_eval)

text \<open>
  Claim C6, amended. Given a null canvas element the mapper returns no result; it is a
  function of the canvas and the event and changes neither. Given a mounted canvas it
  returns, for a \<open>touchstart\<close> or \<open>touchmove\<close> event, the page coordinates of the first touch
  contact point minus the canvas element's offset, and for every other event the client
  coordinates of the event minus the canvas element's offset.
\<close>

theorem getCoordinates_maps:
  "getCoordinates None ev = Inr None
   \<and> (type ev = ''touchstart'' \<or> type ev = ''touchmove'' \<longrightarrow> touches ev = t # ts \<longrightarrow>
        getCoordinates (Some c) ev
          = Inr (Some \<lparr>x = js_sub (pageX t) (offsetLeft c), y = js_sub (pageY t) (offsetTop c)\<rparr>))
   \<and> (type ev \<noteq> ''touchstart'' \<and> type ev \<noteq> ''touchmove'' \<longrightarrow>
        getCoordinates (Some c) ev
          = Inr (Some \<lparr>x = js_sub (event.clientX ev) (offsetLeft c),
                       y = js_sub (event.clientY ev) (offsetTop c)\<rparr>))"
  by (simp add: getCoordinates_def)

theorem getCoordinates_maps_witness:
  "getCoordinates None touch_event = Inr None
   \<and> getCoordinates (Some (mounted\<lparr>offsetLeft := Num 8, offsetTop := Num 8\<rparr>)) touch_event
       = Inr (Some (pt 2 12))
   \<and> getCoordinates (Some (mounted\<lparr>offsetLeft := Num 8, offsetTop := Num 8\<rparr>))
        (mouse ''mousedown'' 30 40)
       = Inr (Some (pt 22 32))"
  using getCoordinates_maps[of touch_event "Touch (Num 10) (Num 20) (Num 3) (Num 4)" "[]"
      "mounted\<lparr>offsetLeft := Num 8, offsetTop := Num 8\<rparr>"]
    getCoordinates_maps[of "mouse ''mousedown'' 30 40" undefined undefined
      "mounted\<lparr>offsetLeft := Num 8, offsetTop := Num 8\<rparr>"]
  by (simp add: touch_event_def mouse_def mounted_def pt_def js_eval)

subsection \<open>Unavailable canvas element or drawing context\<close>

text \<open>
  Claim C5, as stated, fails for the resize handler: the effect passes
  \<open>canvasRef.current!\<close> to \<open>resizeCanvas\<close>, which calls \<open>getBoundingClientRect\<close> on it
  without a check, so a null canvas element raises a TypeError.
\<close>

theorem resize_handler_null_canvas_raises:
  "step binary64 IndexPage_props None (Resize (Num 800) (Num 600)) (initial None) = Inl TypeError"
  by (simp add: initial_def)

text \<open>
  Claim C5, amended. The stroke renderer, the coordinate mapper and the pointer handlers
  treat a null canvas element as a silent no-op: the renderer touches no context, the
  mapper returns no result, and pointer-down and pointer-move leave the component as it
  is. A missing 2D context is a silent no-op in the stroke renderer and a silent early
  return in \<open>resizeCanvas\<close>, which then changes nothing. Pointer-up never fails, and the
  resize handler never fails on a mounted canvas, the only input its non-null assertion
  admits.
\<close>

theorem unavailable_resource_is_skipped:
  "drawLine None props p q = [Call_drawLine p q]
   \<and> drawLine (Some (c\<lparr>context2d := False\<rparr>)) props p q = [Call_drawLine p q]
   \<and> getCoordinates None ev = Inr None
   \<and> step E props dpr (Down ev) (w\<lparr>ref_current := None\<rparr>) = Inr (w\<lparr>ref_current := None\<rparr>, [])
   \<and> step E props dpr (Move ev) (w\<lparr>ref_current := None\<rparr>) = Inr (w\<lparr>ref_current := None\<rparr>, [])
   \<and> (\<exists>tr. step E props dpr Up w = Inr (w\<lparr>component := onUp (component w)\<rparr>, tr)
             \<and> render_calls tr = [])
   \<and> resizeCanvas dpr props ds (c\<lparr>context2d := False\<rparr>) = (c\<lparr>context2d := False\<rparr>, [])
   \<and> step E props dpr (Resize vw vh) (w\<lparr>ref_current := Some (c\<lparr>context2d := False\<rparr>)\<rparr>)
       = Inr (w\<lparr>ref_current := Some (c\<lparr>context2d := False, rect_width := vw, rect_height := vh\<rparr>)\<rparr>, [])
   \<and> (\<exists>r. step E props dpr (Resize vw vh) (w\<lparr>ref_current := Some c\<rparr>) = Inr r)"
proof -
  have 1: "drawLine None props p q = [Call_drawLine p q]"
    and 2: "drawLine (Some (c\<lparr>context2d := False\<rparr>)) props p q = [Call_drawLine p q]"
    by (simp_all add: drawLine_def)
  have 3: "getCoordinates None ev = Inr None"
    by (simp add: getCoordinates_def)
  have 4: "step E props dpr (Down ev) (w\<lparr>ref_current := None\<rparr>) = Inr (w\<lparr>ref_current := None\<rparr>, [])"
    by (simp add: onDown_def 3 after_render_def)
  have 5: "step E props dpr (Move ev) (w\<lparr>ref_current := None\<rparr>) = Inr (w\<lparr>ref_current := None\<rparr>, [])"
    by (simp add: onMove_def onMove_closure_def 3 after_render_def split: option.splits)
  have 6: "\<exists>tr. step E props dpr Up w = Inr (w\<lparr>component := onUp (component w)\<rparr>, tr)
             \<and> render_calls tr = []"
    by (simp add: render_calls_after_render)
  have 7: "resizeCanvas dpr props ds (c\<lparr>context2d := False\<rparr>) = (c\<lparr>context2d := False\<rparr>, [])"
    by (simp add: resizeCanvas_def Let_def)
  have 8: "step E props dpr (Resize vw vh) (w\<lparr>ref_current := Some (c\<lparr>context2d := False\<rparr>)\<rparr>)
       = Inr (w\<lparr>ref_current := Some (c\<lparr>context2d := False, rect_width := vw, rect_height := vh\<rparr>)\<rparr>, [])"
    by (simp add: resizeCanvas_def Let_def)
  have 9: "\<exists>r. step E props dpr (Resize vw vh) (w\<lparr>ref_current := Some c\<rparr>) = Inr r"
    by (simp split: prod.splits)
  from 1 2 3 4 5 6 7 8 9 show ?thesis by blast
qed

theorem unavailable_resource_is_skipped_witness:
  "drawLine None IndexPage_props (pt 0 0) (pt 3 4) = [Call_drawLine (pt 0 0) (pt 3 4)]
   \<and> step binary64 IndexPage_props None (Move (mouse ''mousemove'' 3 4))
        \<lparr>component = stroke_start, ref_current = None\<rparr>
       = Inr (\<lparr>component = stroke_start, ref_current = None\<rparr>, [])
   \<and> step binary64 IndexPage_props None (Resize (Num 800) (Num 600))
        \<lparr>component = stroke_start, ref_current = Some (mounted\<lparr>context2d := False\<rparr>)\<rparr>
       = Inr (\<lparr>component = stroke_start,
               ref_current = Some (mounted\<lparr>context2d := False, rect_width := Num 800,
                                          rect_height := Num 600\<rparr>)\<rparr>, [])"
  using unavailable_resource_is_skipped[of IndexPage_props "pt 0 0" "pt 3 4" mounted
      "mouse ''mousemove'' 3 4" binary64 None "\<lparr>component = stroke_start, ref_current = None\<rparr>"
      "[]" "Num 800" "Num 600"]
  by simp

subsection \<open>Replay after a resize\<close>

text \<open>
  Claim C4. For a recorded path of \<open>N\<close> points, a resize event whose replay runs (the canvas
  is mounted, has a 2D context, and its backing store differs from the new bounding box)
  issues exactly \<open>N - 1\<close> calls of the stroke renderer, the \<open>i\<close>-th of them from point \<open>i\<close>
  to point \<open>i + 1\<close>, and none when \<open>N \<le> 1\<close>; each call strokes once, and the component
  state is unchanged.
\<close>

theorem resize_replay:
  assumes "ref_current w = Some c" and "context2d c"
    and "js_strict_neq (Num (real (width c))) vw \<or> js_strict_neq (Num (real (height c))) vh"
  shows "\<exists>w' tr. step E props dpr (Resize vw vh) w = Inr (w', tr)
           \<and> component w' = component w
           \<and> render_calls tr = zip (data (component w)) (tl (data (component w)))
           \<and> length (render_calls tr) = length (data (component w)) - 1
           \<and> (\<forall>i. i + 1 < length (data (component w)) \<longrightarrow>
                  render_calls tr ! i = (data (component w) ! i, data (component w) ! (i + 1)))
           \<and> (length (data (component w)) \<le> 1 \<longrightarrow> render_calls tr = [])
           \<and> count_list tr (Ctx Stroke) = length (data (component w)) - 1"
proof -
  let ?ds = "data (component w)"
  let ?ratio = "case dpr of None \<Rightarrow> Num 1 | Some r \<Rightarrow> r"
  let ?c' = "c\<lparr>rect_width := vw, rect_height := vh,
               width := to_unsigned_long 300 (js_mul vw ?ratio),
               height := to_unsigned_long 150 (js_mul vh ?ratio)\<rparr>"
  let ?tr = "[CanvasWidth (js_mul vw ?ratio), CanvasHeight (js_mul vh ?ratio),
              Ctx (Scale ?ratio ?ratio)]
             @ redraw (Some ?c') props ?ds"
  have s: "step E props dpr (Resize vw vh) w = Inr (w\<lparr>ref_current := Some ?c'\<rparr>, ?tr)"
    using assms by (auto simp: resizeCanvas_def Let_def)
  have rc: "render_calls ?tr = zip ?ds (tl ?ds)"
    by (simp add: render_calls_redraw)
  have len: "length (zip ?ds (tl ?ds)) = length ?ds - 1" by simp
  have nth: "zip ?ds (tl ?ds) ! i = (?ds ! i, ?ds ! (i + 1))" if "i + 1 < length ?ds" for i
    using that by (simp add: nth_tl)
  have emp: "zip ?ds (tl ?ds) = []" if "length ?ds \<le> 1"
    using that len by (metis diff_is_0_eq length_0_conv)
  have st: "count_list ?tr (Ctx Stroke) = length ?ds - 1"
    using assms(2) by (simp add: redraw_def strokes_redraw_loop)
  show ?thesis
    using s rc len nth emp st by (intro exI[of _ "w\<lparr>ref_current := Some ?c'\<rparr>"] exI[of _ ?tr]) simp
qed

theorem resize_replay_witness:
  "step binary64 IndexPage_props None (Resize (Num 800) (Num 600)) three_points =
     Inr (three_points\<lparr>ref_current := Some resized\<rparr>,
          [CanvasWidth (Num 800), CanvasHeight (Num 600), Ctx (Scale (Num 1) (Num 1))]
          @ drawLine (Some resized) IndexPage_props (pt 3 4) (pt 6 8)
          @ drawLine (Some resized) IndexPage_props (pt 6 8) (pt 6 20))
   \<and> zip (data (component three_points)) (tl (data (component three_points)))
       = [(pt 3 4, pt 6 8), (pt 6 8, pt 6 20)]"
proof -
  have r: "ref_current three_points = Some mounted" by (simp add: three_points_def)
  have c: "context2d mounted" by (simp add: mounted_def)
  have d: "js_strict_neq (Num (real (width mounted))) (Num 800)
           \<or> js_strict_neq (Num (real (height mounted))) (Num 600)"
    by (simp add: mounted_def js_strict_neq_def)
  obtain w' tr where
    s: "step binary64 IndexPage_props None (Resize (Num 800) (Num 600)) three_points = Inr (w', tr)" and
    rc: "render_calls tr = zip (data (component three_points)) (tl (data (component three_points)))"
    using resize_replay[OF r c d, of binary64 IndexPage_props None] by blast
  have e: "step binary64 IndexPage_props None (Resize (Num 800) (Num 600)) three_points =
     Inr (three_points\<lparr>ref_current := Some resized\<rparr>,
          [CanvasWidth (Num 800), CanvasHeight (Num 600), Ctx (Scale (Num 1) (Num 1))]
          @ drawLine (Some resized) IndexPage_props (pt 3 4) (pt 6 8)
          @ drawLine (Some resized) IndexPage_props (pt 6 8) (pt 6 20))"
    by (simp add: three_points_def resized_def mounted_def resizeCanvas_def Let_def
          js_strict_neq_def to_unsigned_long_def fl_Ints redraw_def redraw_loop.simps)
  from s e rc show ?thesis
    by (simp add: render_calls_append render_calls_drawLine)
qed

subsection \<open>Invariants of the session\<close>

text \<open>
  Claim C10. In every state reached from the initial state (not drawing, no position,
  empty path) by handling down, move and up events (also moves handled in groups before
  a render, and resize events), a set drawing flag comes with a current position.
\<close>

theorem drawing_has_position:
  assumes "run E props dpr inputs (initial canvasRef) = Inr (w, tr)"
  shows "drawing (component w) \<longrightarrow> position (component w) \<noteq> None"
  using run_session[OF assms] by (simp add: initial_def)

theorem drawing_has_position_witness:
  "run binary64 IndexPage_props None [Down (mouse ''mousedown'' 0 0), Move (mouse ''mousemove'' 3 4)]
       (initial (Some mounted))
     = Inr (\<lparr>component = \<lparr>drawing = True, position = Some (pt 3 4), data = [pt 3 4]\<rparr>,
              ref_current = Some mounted\<rparr>,
            drawLine (Some mounted) IndexPage_props (pt 0 0) (pt 3 4))
   \<and> drawing \<lparr>drawing = True, position = Some (pt 3 4), data = [pt 3 4]\<rparr>
   \<and> position \<lparr>drawing = True, position = Some (pt 3 4), data = [pt 3 4]\<rparr> \<noteq> None"
proof -
  have r: "run binary64 IndexPage_props None
             [Down (mouse ''mousedown'' 0 0), Move (mouse ''mousemove'' 3 4)]
             (initial (Some mounted))
     = Inr (\<lparr>component = \<lparr>drawing = True, position = Some (pt 3 4), data = [pt 3 4]\<rparr>,
              ref_current = Some mounted\<rparr>,
            drawLine (Some mounted) IndexPage_props (pt 0 0) (pt 3 4))"
    by (simp add: initial_def onDown_def onMove_def onMove_closure_def getCoordinates_def
          getDistance_def mouse_def mounted_def IndexPage_props_def after_render_def
          log_effect_def pt_def js_eval)
  from drawing_has_position[OF r] r show ?thesis by simp
qed

text \<open>
  Claim C3, as stated, fails in three ways. When two qualifying moves are handled before
  the component renders again, both run the closure of the last render: two segments are
  stroked, to (3, 4) and to (6, 8), but the second \<open>setData\<close> replaces the first and the
  path is [(6, 8)]. On a canvas without a 2D context the points of the qualifying moves
  are recorded although no segment is rendered. And a qualifying move to a point with an
  infinite coordinate is recorded although the 2D context ignores its \<open>lineTo\<close> and
  renders nothing.
\<close>

theorem recorded_path_differs_from_strokes:
  "run binary64 IndexPage_props None hasty_stroke (initial (Some mounted))
     = Inr (\<lparr>component = \<lparr>drawing = False, position = None, data = [pt 6 8]\<rparr>,
              ref_current = Some mounted\<rparr>,
            drawLine (Some mounted) IndexPage_props (pt 0 0) (pt 3 4)
            @ drawLine (Some mounted) IndexPage_props (pt 0 0) (pt 6 8)
            @ [ConsoleLog [pt 6 8]])
   \<and> stroked (drawLine (Some mounted) IndexPage_props (pt 0 0) (pt 3 4)
              @ drawLine (Some mounted) IndexPage_props (pt 0 0) (pt 6 8)
              @ [ConsoleLog [pt 6 8]])
       = [(pt 0 0, pt 3 4), (pt 0 0, pt 6 8)]
   \<and> run binary64 IndexPage_props None sample_stroke (initial (Some no_context))
       = Inr (\<lparr>component = \<lparr>drawing = False, position = None, data = [pt 3 4, pt 6 8]\<rparr>,
                ref_current = Some no_context\<rparr>,
              [Call_drawLine (pt 0 0) (pt 3 4), Call_drawLine (pt 3 4) (pt 6 8),
               ConsoleLog [pt 3 4, pt 6 8]])
   \<and> stroked [Call_drawLine (pt 0 0) (pt 3 4), Call_drawLine (pt 3 4) (pt 6 8),
               ConsoleLog [pt 3 4, pt 6 8]] = []
   \<and> run binary64 IndexPage_props None far_stroke (initial (Some far_left))
       = Inr (\<lparr>component = \<lparr>drawing = False, position = None, data = [far_point]\<rparr>,
                ref_current = Some far_left\<rparr>,
              drawLine (Some far_left) IndexPage_props (pt (2 ^ 1023) 0) far_point
              @ [ConsoleLog [far_point]])
   \<and> stroked (drawLine (Some far_left) IndexPage_props (pt (2 ^ 1023) 0) far_point
              @ [ConsoleLog [far_point]]) = []"
proof -
  have 1: "run binary64 IndexPage_props None hasty_stroke (initial (Some mounted))
     = Inr (\<lparr>component = \<lparr>drawing = False, position = None, data = [pt 6 8]\<rparr>,
              ref_current = Some mounted\<rparr>,
            drawLine (Some mounted) IndexPage_props (pt 0 0) (pt 3 4)
            @ drawLine (Some mounted) IndexPage_props (pt 0 0) (pt 6 8)
            @ [ConsoleLog [pt 6 8]])"
    by (simp add: hasty_stroke_def initial_def onDown_def onUp_def onMove_closure_def
          getCoordinates_def getDistance_def mouse_def mounted_def IndexPage_props_def
          after_render_def log_effect_def pt_def js_eval)
  have 2: "stroked (drawLine (Some mounted) IndexPage_props (pt 0 0) (pt 3 4)
              @ drawLine (Some mounted) IndexPage_props (pt 0 0) (pt 6 8)
              @ [ConsoleLog [pt 6 8]])
       = [(pt 0 0, pt 3 4), (pt 0 0, pt 6 8)]"
    by (simp add: stroked_def drawLine_def mounted_def pt_def)
  have 3: "run binary64 IndexPage_props None sample_stroke (initial (Some no_context))
       = Inr (\<lparr>component = \<lparr>drawing = False, position = None, data = [pt 3 4, pt 6 8]\<rparr>,
                ref_current = Some no_context\<rparr>,
              [Call_drawLine (pt 0 0) (pt 3 4), Call_drawLine (pt 3 4) (pt 6 8),
               ConsoleLog [pt 3 4, pt 6 8]])"
    by (simp add: sample_stroke_def initial_def onDown_def onUp_def onMove_def onMove_closure_def
          getCoordinates_def getDistance_def mouse_def no_context_def mounted_def
          IndexPage_props_def after_render_def log_effect_def drawLine_def pt_def js_eval)
  have 4: "stroked [Call_drawLine (pt 0 0) (pt 3 4), Call_drawLine (pt 3 4) (pt 6 8),
               ConsoleLog [pt 3 4, pt 6 8]] = []"
    by (simp add: stroked_def)
  have 5: "run binary64 IndexPage_props None far_stroke (initial (Some far_left))
       = Inr (\<lparr>component = \<lparr>drawing = False, position = None, data = [far_point]\<rparr>,
                ref_current = Some far_left\<rparr>,
              drawLine (Some far_left) IndexPage_props (pt (2 ^ 1023) 0) far_point
              @ [ConsoleLog [far_point]])"
    by (simp add: far_stroke_def far_move_def far_left_def far_point_def initial_def onDown_def
          onUp_def onMove_def onMove_closure_def getCoordinates_def getDistance_def mouse_def
          mounted_def IndexPage_props_def after_render_def log_effect_def pt_def js_eval
          fl_2_1023[simplified] fl_2_1024[simplified])
  have 6: "stroked (drawLine (Some far_left) IndexPage_props (pt (2 ^ 1023) 0) far_point
              @ [ConsoleLog [far_point]]) = []"
    by (simp add: stroked_def drawLine_def far_left_def mounted_def far_point_def pt_def)
  from 1 2 3 4 5 6 show ?thesis by blast
qed

text \<open>
  Claim C3, amended. With recording enabled, on a canvas with a 2D context, after any
  sequence of down, move and up events from the initial state in which every event is
  rendered before the next one is handled and the mapped coordinates are finite, the
  recorded path is exactly the sequence of the end points of the segments stroked so
  far, in the order in which they were stroked, one for each call of the stroke renderer.
  Every recorded point is the mapped candidate of a move event of the sequence, so the
  point of a down event is in the path only if a move event ended there.
\<close>

theorem recorded_path_is_rendered_endpoints:
  assumes "recordPoints props = Some True" and "context2d c"
    and "list_all (plain (Some c)) inputs"
    and "run E props dpr inputs (initial (Some c)) = Inr (w, tr)"
  shows "data (component w) = map snd (stroked tr)
       \<and> stroked tr = render_calls tr
       \<and> (\<forall>q \<in> set (data (component w)).
            \<exists>ev. Move ev \<in> set inputs \<and> getCoordinates (Some c) ev = Inr (Some q))"
proof -
  have s: "stroked tr = render_calls tr"
    using run_plain_stroked[OF assms(3,2,4)] .
  have "data (component w) = map snd (render_calls tr)"
    using run_plain_data[OF assms(3,4)] by (simp add: initial_def)
  with s have d: "data (component w) = map snd (stroked tr)" by simp
  have "\<exists>ev. Move ev \<in> set inputs \<and> getCoordinates (Some c) ev = Inr (Some q)"
    if "q \<in> set (data (component w))" for q
    using run_plain_sources[OF assms(3,4) that] by (simp add: initial_def)
  with s d show ?thesis by blast
qed

theorem recorded_path_is_rendered_endpoints_witness:
  "run binary64 IndexPage_props None sample_stroke (initial (Some mounted))
     = Inr (after_strokes,
            drawLine (Some mounted) IndexPage_props (pt 0 0) (pt 3 4)
            @ drawLine (Some mounted) IndexPage_props (pt 3 4) (pt 6 8)
            @ [ConsoleLog [pt 3 4, pt 6 8]])
   \<and> data (component after_strokes) = [pt 3 4, pt 6 8]
   \<and> map snd (stroked (drawLine (Some mounted) IndexPage_props (pt 0 0) (pt 3 4)
            @ drawLine (Some mounted) IndexPage_props (pt 3 4) (pt 6 8)
            @ [ConsoleLog [pt 3 4, pt 6 8]])) = [pt 3 4, pt 6 8]"
proof -
  have e: "recordPoints IndexPage_props = Some True" by (simp add: IndexPage_props_def)
  have c: "context2d mounted" by (simp add: mounted_def)
  have p: "list_all (plain (Some mounted)) sample_stroke"
    by (simp add: sample_stroke_def maps_finite_def finite_point_def getCoordinates_def
          mouse_def mounted_def js_eval)
  have r: "run binary64 IndexPage_props None sample_stroke (initial (Some mounted))
     = Inr (after_strokes,
            drawLine (Some mounted) IndexPage_props (pt 0 0) (pt 3 4)
            @ drawLine (Some mounted) IndexPage_props (pt 3 4) (pt 6 8)
            @ [ConsoleLog [pt 3 4, pt 6 8]])"
    by (simp add: sample_stroke_def after_strokes_def initial_def onDown_def onUp_def onMove_def
          onMove_closure_def getCoordinates_def getDistance_def mouse_def mounted_def
          IndexPage_props_def after_render_def log_effect_def pt_def js_eval)
  from recorded_path_is_rendered_endpoints[OF e c p r] r show ?thesis
    by (simp add: after_strokes_def render_calls_append render_calls_drawLine)
qed

subsection \<open>The debug log\<close>

text \<open>
  Claim C8. A transition from drawing to idle is a pointer-up, which always succeeds. After
  it, if recording is enabled, the full recorded path is written to the console. The
  component state after the transition is the one the pointer-up handler sets (flag
  cleared, position cleared, path as before): the emission changes none of it, and no
  stroke is rendered.
\<close>

theorem stroke_end_emits_path:
  assumes "drawing (component w)"
  shows "step E props dpr Up w =
           Inr (w\<lparr>component := onUp (component w)\<rparr>,
                if recordPoints props = Some True then [ConsoleLog (data (component w))] else [])
       \<and> \<not> drawing (onUp (component w))
       \<and> (\<forall>i w' tr. step E props dpr i w = Inr (w', tr) \<and> \<not> drawing (component w') \<longrightarrow>
             i = Up \<and> component w' = onUp (component w)
             \<and> data (component w') = data (component w)
             \<and> render_calls tr = []
             \<and> (recordPoints props = Some True \<longrightarrow> tr = [ConsoleLog (data (component w'))]))"
proof -
  have up: "step E props dpr Up w =
           Inr (w\<lparr>component := onUp (component w)\<rparr>,
                if recordPoints props = Some True then [ConsoleLog (data (component w))] else [])"
    using assms by (simp add: after_render_def log_effect_def onUp_def)
  have idle: "\<not> drawing (onUp (component w))" by (simp add: onUp_def)
  have "i = Up \<and> component w' = onUp (component w)
        \<and> data (component w') = data (component w)
        \<and> render_calls tr = []
        \<and> (recordPoints props = Some True \<longrightarrow> tr = [ConsoleLog (data (component w'))])"
    if s: "step E props dpr i w = Inr (w', tr)" and n: "\<not> drawing (component w')" for i w' tr
  proof -
    have i: "i = Up" using step_stops_drawing[OF assms s n] .
    with s up have "w' = w\<lparr>component := onUp (component w)\<rparr>"
      and "tr = (if recordPoints props = Some True then [ConsoleLog (data (component w))] else [])"
      by simp_all
    with i show ?thesis by (simp add: onUp_def)
  qed
  with up idle show ?thesis by blast
qed

theorem stroke_end_emits_path_witness:
  "step binary64 IndexPage_props None Up mid_stroke =
     Inr (after_strokes, [ConsoleLog [pt 3 4, pt 6 8]])
   \<and> step binary64 unset_props None Up mid_stroke = Inr (after_strokes, [])"
proof -
  have d: "drawing (component mid_stroke)" by (simp add: mid_stroke_def)
  show ?thesis
    using stroke_end_emits_path[OF d, of binary64 IndexPage_props None]
      stroke_end_emits_path[OF d, of binary64 unset_props None]
    by (simp add: mid_stroke_def after_strokes_def onUp_def IndexPage_props_def unset_props_def)
qed

subsection \<open>Resize with recording disabled\<close>

text \<open>
  Claim C1, as stated, fails: the path is recorded whether or not \<open>recordPoints\<close> is set.
  With \<open>recordPoints\<close> unset, a stroke with the two qualifying moves to (3, 4) and (6, 8)
  leaves the path [(3, 4), (6, 8)], and the resize that follows replays it with one call
  of the stroke renderer.
\<close>

theorem disabled_recording_still_replays:
  "recordPoints unset_props = None
   \<and> run binary64 unset_props None sample_stroke (initial (Some mounted))
       = Inr (after_strokes,
              drawLine (Some mounted) unset_props (pt 0 0) (pt 3 4)
              @ drawLine (Some mounted) unset_props (pt 3 4) (pt 6 8))
   \<and> data (component after_strokes) = [pt 3 4, pt 6 8]
   \<and> step binary64 unset_props None (Resize (Num 800) (Num 600)) after_strokes
       = Inr (after_strokes\<lparr>ref_current := Some resized\<rparr>,
              [CanvasWidth (Num 800), CanvasHeight (Num 600), Ctx (Scale (Num 1) (Num 1))]
              @ drawLine (Some resized) unset_props (pt 3 4) (pt 6 8))
   \<and> render_calls ([CanvasWidth (Num 800), CanvasHeight (Num 600), Ctx (Scale (Num 1) (Num 1))]
              @ drawLine (Some resized) unset_props (pt 3 4) (pt 6 8)) = [(pt 3 4, pt 6 8)]"
proof -
  have 1: "recordPoints unset_props = None"
    by (simp add: unset_props_def)
  have 2: "run binary64 unset_props None sample_stroke (initial (Some mounted))
       = Inr (after_strokes,
              drawLine (Some mounted) unset_props (pt 0 0) (pt 3 4)
              @ drawLine (Some mounted) unset_props (pt 3 4) (pt 6 8))"
    by (simp add: sample_stroke_def after_strokes_def initial_def onDown_def onUp_def onMove_def
          onMove_closure_def getCoordinates_def getDistance_def mouse_def mounted_def
          unset_props_def IndexPage_props_def after_render_def log_effect_def pt_def js_eval)
  have 3: "data (component after_strokes) = [pt 3 4, pt 6 8]"
    by (simp add: after_strokes_def)
  have 4: "step binary64 unset_props None (Resize (Num 800) (Num 600)) after_strokes
       = Inr (after_strokes\<lparr>ref_current := Some resized\<rparr>,
              [CanvasWidth (Num 800), CanvasHeight (Num 600), Ctx (Scale (Num 1) (Num 1))]
              @ drawLine (Some resized) unset_props (pt 3 4) (pt 6 8))"
    by (simp add: after_strokes_def resized_def mounted_def resizeCanvas_def Let_def
          js_strict_neq_def to_unsigned_long_def fl_Ints redraw_def redraw_loop.simps)
  have 5: "render_calls ([CanvasWidth (Num 800), CanvasHeight (Num 600), Ctx (Scale (Num 1) (Num 1))]
              @ drawLine (Some resized) unset_props (pt 3 4) (pt 6 8)) = [(pt 3 4, pt 6 8)]"
    by (simp add: render_calls_drawLine)
  from 1 2 3 4 5 show ?thesis by blast
qed

text \<open>
  Claim C1, amended. With recording disabled, for any sequence of pointer-down, move and up
  events followed by a resize event whose replay runs: nothing is written to the console;
  the path is recorded all the same, so it is empty only if no move event qualified (no
  call of the stroke renderer was issued); the resize clears the canvas by resizing its
  backing store and then replays the path with \<open>N - 1\<close> calls of the stroke renderer, one
  stroke for each consecutive pair of its \<open>N\<close> points, so with no call only if \<open>N \<le> 1\<close>.
\<close>

theorem disabled_recording_path_and_replay:
  assumes "recordPoints props \<noteq> Some True" and "list_all is_pointer inputs"
    and "run E props dpr inputs (initial (Some c)) = Inr (w, tr)"
    and "context2d c"
    and "js_strict_neq (Num (real (width c))) vw \<or> js_strict_neq (Num (real (height c))) vh"
  shows "console_logs tr = []
       \<and> (data (component w) = []) = (render_calls tr = [])
       \<and> (\<exists>w' ratio rest.
             step E props dpr (Resize vw vh) w
               = Inr (w', CanvasWidth (js_mul vw ratio) # CanvasHeight (js_mul vh ratio)
                          # Ctx (Scale ratio ratio) # rest)
             \<and> component w' = component w
             \<and> render_calls rest = zip (data (component w)) (tl (data (component w)))
             \<and> length (render_calls rest) = length (data (component w)) - 1
             \<and> count_list rest (Ctx Stroke) = length (data (component w)) - 1
             \<and> console_logs rest = [])"
proof -
  let ?ds = "data (component w)"
  let ?ratio = "case dpr of None \<Rightarrow> Num 1 | Some r \<Rightarrow> r"
  let ?c' = "c\<lparr>rect_width := vw, rect_height := vh,
               width := to_unsigned_long 300 (js_mul vw ?ratio),
               height := to_unsigned_long 150 (js_mul vh ?ratio)\<rparr>"
  let ?rest = "redraw (Some ?c') props ?ds"
  from run_pointer_ref[OF assms(2,3)]
  have rc: "ref_current w = Some c" by (simp add: initial_def)
  have quiet: "console_logs tr = []"
    using run_pointer_quiet[OF assms(1,2,3)] .
  have empty: "(?ds = []) = (render_calls tr = [])"
    using run_pointer_empty[OF assms(2,3)] by (simp add: initial_def)
  have s: "step E props dpr (Resize vw vh) w
             = Inr (w\<lparr>ref_current := Some ?c'\<rparr>,
                    CanvasWidth (js_mul vw ?ratio) # CanvasHeight (js_mul vh ?ratio)
                    # Ctx (Scale ?ratio ?ratio) # ?rest)"
    using rc assms(4,5) by (auto simp: resizeCanvas_def Let_def)
  have r: "render_calls ?rest = zip ?ds (tl ?ds)"
    by (simp add: render_calls_redraw)
  have l: "length (render_calls ?rest) = length ?ds - 1"
    by (simp add: r)
  have k: "count_list ?rest (Ctx Stroke) = length ?ds - 1"
    using assms(4) by (simp add: redraw_def strokes_redraw_loop)
  have q: "console_logs ?rest = []"
    by (simp add: redraw_def console_logs_redraw_loop)
  have "\<exists>w' ratio rest.
             step E props dpr (Resize vw vh) w
               = Inr (w', CanvasWidth (js_mul vw ratio) # CanvasHeight (js_mul vh ratio)
                          # Ctx (Scale ratio ratio) # rest)
             \<and> component w' = component w
             \<and> render_calls rest = zip ?ds (tl ?ds)
             \<and> length (render_calls rest) = length ?ds - 1
             \<and> count_list rest (Ctx Stroke) = length ?ds - 1
             \<and> console_logs rest = []"
    using s r l k q
    by (intro exI[of _ "w\<lparr>ref_current := Some ?c'\<rparr>"] exI[of _ ?ratio] exI[of _ ?rest]) simp
  with quiet empty show ?thesis by blast
qed

theorem disabled_recording_path_and_replay_witness:
  "console_logs (drawLine (Some mounted) unset_props (pt 0 0) (pt 3 4)
                 @ drawLine (Some mounted) unset_props (pt 3 4) (pt 6 8)) = []
   \<and> data (component after_strokes) \<noteq> []
   \<and> render_calls (drawLine (Some mounted) unset_props (pt 0 0) (pt 3 4)
                    @ drawLine (Some mounted) unset_props (pt 3 4) (pt 6 8)) \<noteq> []
   \<and> (\<exists>w' ratio rest.
         step binary64 unset_props None (Resize (Num 800) (Num 600)) after_strokes
           = Inr (w', CanvasWidth (js_mul (Num 800) ratio) # CanvasHeight (js_mul (Num 600) ratio)
                      # Ctx (Scale ratio ratio) # rest)
         \<and> length (render_calls rest) = 1)"
proof -
  have 1: "recordPoints unset_props \<noteq> Some True"
    by (simp add: unset_props_def)
  have 2: "list_all is_pointer sample_stroke"
    by (simp add: sample_stroke_def)
  have 3: "run binary64 unset_props None sample_stroke (initial (Some mounted))
       = Inr (after_strokes,
              drawLine (Some mounted) unset_props (pt 0 0) (pt 3 4)
              @ drawLine (Some mounted) unset_props (pt 3 4) (pt 6 8))"
    by (simp add: sample_stroke_def after_strokes_def initial_def onDown_def onUp_def onMove_def
          onMove_closure_def getCoordinates_def getDistance_def mouse_def mounted_def
          unset_props_def IndexPage_props_def after_render_def log_effect_def pt_def js_eval)
  have 4: "context2d mounted" by (simp add: mounted_def)
  have 5: "js_strict_neq (Num (real (width mounted))) (Num 800)
           \<or> js_strict_neq (Num (real (height mounted))) (Num 600)"
    by (simp add: mounted_def js_strict_neq_def)
  have 6: "length (data (component after_strokes)) - 1 = 1"
    and 7: "data (component after_strokes) \<noteq> []"
    by (simp_all add: after_strokes_def)
  from disabled_recording_path_and_replay[OF 1 2 3 4 5]
  obtain w' ratio rest where
    a: "console_logs (drawLine (Some mounted) unset_props (pt 0 0) (pt 3 4)
                      @ drawLine (Some mounted) unset_props (pt 3 4) (pt 6 8)) = []"
    and b: "(data (component after_strokes) = [])
            = (render_calls (drawLine (Some mounted) unset_props (pt 0 0) (pt 3 4)
                             @ drawLine (Some mounted) unset_props (pt 3 4) (pt 6 8)) = [])"
    and c: "step binary64 unset_props None (Resize (Num 800) (Num 600)) after_strokes
              = Inr (w', CanvasWidth (js_mul (Num 800) ratio) # CanvasHeight (js_mul (Num 600) ratio)
                         # Ctx (Scale ratio ratio) # rest)"
    and d: "length (render_calls rest) = length (data (component after_strokes)) - 1"
    by blast
  from d 6 have "length (render_calls rest) = 1" by (simp only:)
  with a b 7 c show ?thesis by blast
qed

end
